theory Spec2Isabelle
  imports Main "HOL-Library.Sublist"
begin

section \<open>Go standard library functions used by the plugin\<close>

text \<open>
  Go strings are byte sequences; they are modelled as \<^typ>\<open>string\<close> (a list of 8-bit
  characters), so \<open>length\<close> is Go's \<open>len\<close>.  A Go \<open>error\<close> is modelled by its message:
  \<open>None\<close> is \<open>nil\<close> and \<open>Some msg\<close> an error whose \<open>Error()\<close> text is \<open>msg\<close>.
\<close>

subsection \<open>Package strings\<close>

definition HasPrefix :: "string \<Rightarrow> string \<Rightarrow> bool" where
  "HasPrefix s pre = prefix pre s"

definition TrimPrefix :: "string \<Rightarrow> string \<Rightarrow> string" where
  "TrimPrefix s pre = (if HasPrefix s pre then drop (length pre) s else s)"

fun Contains :: "string \<Rightarrow> string \<Rightarrow> bool" where
  "Contains [] substr = (substr = [])"
| "Contains (c # s) substr = (prefix substr (c # s) \<or> Contains s substr)"

text \<open>\<open>strings.Split(s, sep)\<close> for a one-byte separator: the pieces between the separators;
  the result always has at least one element (\<open>Split("", ".")\<close> is \<open>[""]\<close>).\<close>

fun Split :: "string \<Rightarrow> char \<Rightarrow> string list" where
  "Split [] sep = [] # []"
| "Split (c # s) sep =
     (if c = sep then [] # Split s sep
      else (case Split s sep of p # ps \<Rightarrow> (c # p) # ps | [] \<Rightarrow> [c] # []))"

text \<open>\<open>strings.Join(elems, sep)\<close>.\<close>

fun Join :: "string list \<Rightarrow> string \<Rightarrow> string" where
  "Join [] sep = []"
| "Join [e] sep = e"
| "Join (e # es) sep = e @ sep @ Join es sep"

text \<open>\<open>strings.ReplaceAll(s, old, new)\<close> for a non-empty \<open>old\<close>: the non-overlapping
  occurrences of \<open>old\<close> are replaced from left to right, and the scan resumes after each
  replaced occurrence (the inserted text is not scanned again).  The plugin only calls it
  with the four non-empty placeholder literals; the empty \<open>old\<close> is left unspecified.\<close>

function ReplaceAll :: "string \<Rightarrow> string \<Rightarrow> string \<Rightarrow> string" where
  "ReplaceAll [] (a # old) new = []"
| "ReplaceAll (c # s) (a # old) new =
     (if prefix (a # old) (c # s)
      then new @ ReplaceAll (drop (length (a # old)) (c # s)) (a # old) new
      else c # ReplaceAll s (a # old) new)"
| "ReplaceAll s [] new = undefined"
  by pat_completeness auto
termination
  by (relation "measure (\<lambda>(s, old, new). length s)") auto

subsection \<open>Package regexp\<close>

text \<open>
  The five validation patterns use character classes, concatenation, \<open>*\<close>, \<open>+\<close>
  and \<open>?\<close>, and each is anchored by \<open>^\<close> and \<open>$\<close>, so \<open>MatchString\<close> holds exactly when the
  whole string is in the language of the pattern.  Patterns are values of \<open>regexp\<close>;
  matching is by derivatives.
\<close>

datatype regexp =
    Never
  | Empty
  | Class "char \<Rightarrow> bool"
  | Cat regexp regexp
  | Or regexp regexp
  | Rep regexp

definition Opt :: "regexp \<Rightarrow> regexp" where
  "Opt r = Or Empty r"

definition Rep1 :: "regexp \<Rightarrow> regexp" where
  "Rep1 r = Cat r (Rep r)"

fun nullable :: "regexp \<Rightarrow> bool" where
  "nullable Never = False"
| "nullable Empty = True"
| "nullable (Class P) = False"
| "nullable (Cat r s) = (nullable r \<and> nullable s)"
| "nullable (Or r s) = (nullable r \<or> nullable s)"
| "nullable (Rep r) = True"

fun deriv :: "char \<Rightarrow> regexp \<Rightarrow> regexp" where
  "deriv c Never = Never"
| "deriv c Empty = Never"
| "deriv c (Class P) = (if P c then Empty else Never)"
| "deriv c (Cat r s) =
     (if nullable r then Or (Cat (deriv c r) s) (deriv c s) else Cat (deriv c r) s)"
| "deriv c (Or r s) = Or (deriv c r) (deriv c s)"
| "deriv c (Rep r) = Cat (deriv c r) (Rep r)"

fun MatchString :: "regexp \<Rightarrow> string \<Rightarrow> bool" where
  "MatchString r [] = nullable r"
| "MatchString r (c # s) = MatchString (deriv c r) s"

text \<open>The strings a pattern denotes: \<open>matches r s\<close> holds when the whole of \<open>s\<close> is an
  instance of \<open>r\<close>.  \<open>MatchString\<close> decides it (lemma \<open>MatchString_matches\<close>).\<close>

inductive matches :: "regexp \<Rightarrow> string \<Rightarrow> bool" where
  m_empty: "matches Empty []"
| m_class: "P c \<Longrightarrow> matches (Class P) [c]"
| m_cat: "matches r u \<Longrightarrow> matches s v \<Longrightarrow> matches (Cat r s) (u @ v)"
| m_left: "matches r u \<Longrightarrow> matches (Or r s) u"
| m_right: "matches s u \<Longrightarrow> matches (Or r s) u"
| m_done: "matches (Rep r) []"
| m_more: "matches r u \<Longrightarrow> matches (Rep r) v \<Longrightarrow> matches (Rep r) (u @ v)"

definition inRange :: "char \<Rightarrow> char \<Rightarrow> char \<Rightarrow> bool" where
  "inRange lo hi c = ((of_char lo :: nat) \<le> of_char c \<and> (of_char c :: nat) \<le> of_char hi)"

definition lower :: "char \<Rightarrow> bool" where
  "lower c = inRange CHR ''a'' CHR ''z'' c"

definition upper :: "char \<Rightarrow> bool" where
  "upper c = inRange CHR ''A'' CHR ''Z'' c"

definition digit :: "char \<Rightarrow> bool" where
  "digit c = inRange CHR ''0'' CHR ''9'' c"

definition alnum :: "char \<Rightarrow> bool" where
  "alnum c = (lower c \<or> upper c \<or> digit c)"

subsection \<open>Package path/filepath (Unix: the separator is \<open>/\<close>, there is no volume name)\<close>

definition Separator :: char where
  "Separator = CHR ''/''"

definition IsPathSeparator :: "char \<Rightarrow> bool" where
  "IsPathSeparator c = (c = Separator)"

definition IsAbs :: "string \<Rightarrow> bool" where
  "IsAbs path = HasPrefix path ''/''"

text \<open>The element at the front of the unread input is \<open>.\<close> (respectively \<open>..\<close>): it is
  followed by a separator or by the end of the path.\<close>

fun dotElem :: "string \<Rightarrow> bool" where
  "dotElem [c] = (c = CHR ''.'')"
| "dotElem (c # d # _) = (c = CHR ''.'' \<and> IsPathSeparator d)"
| "dotElem [] = False"

fun dotdotElem :: "string \<Rightarrow> bool" where
  "dotdotElem [c, d] = (c = CHR ''.'' \<and> d = CHR ''.'')"
| "dotdotElem (c # d # e # _) = (c = CHR ''.'' \<and> d = CHR ''.'' \<and> IsPathSeparator e)"
| "dotdotElem _ = False"

text \<open>Backtracking over the last element written: \<open>w\<close> is the write index, already
  decremented once; it moves left until it reaches \<open>dotdot\<close> or a separator.\<close>

fun backtrack :: "string \<Rightarrow> nat \<Rightarrow> nat \<Rightarrow> nat" where
  "backtrack buf dotdot 0 = 0"
| "backtrack buf dotdot (Suc w) =
     (if Suc w > dotdot \<and> \<not> IsPathSeparator (buf ! Suc w)
      then backtrack buf dotdot w else Suc w)"

text \<open>
  The main loop of \<open>Clean\<close>.  The second argument is the unread part of the path
  (\<open>path[r:]\<close>), \<open>out\<close> the bytes written so far (\<open>out.w\<close> is its length) and \<open>dotdot\<close>
  the index in \<open>out\<close> where \<open>..\<close> must stop.
\<close>

function cleanLoop :: "bool \<Rightarrow> string \<Rightarrow> string \<Rightarrow> nat \<Rightarrow> string" where
  "cleanLoop rooted [] out dotdot = out"
| "cleanLoop rooted (c # rest) out dotdot =
     (if IsPathSeparator c then cleanLoop rooted rest out dotdot
      else if dotElem (c # rest) then cleanLoop rooted rest out dotdot
      else if dotdotElem (c # rest) then
        (if length out > dotdot then
           cleanLoop rooted (drop 2 (c # rest))
             (take (backtrack out dotdot (length out - 1)) out) dotdot
         else if \<not> rooted then
           (let out' = (if length out > 0 then out @ [Separator] else out) @ ''..''
            in cleanLoop rooted (drop 2 (c # rest)) out' (length out'))
         else cleanLoop rooted (drop 2 (c # rest)) out dotdot)
      else
        (let out' = (if rooted \<and> length out \<noteq> 1 \<or> \<not> rooted \<and> length out \<noteq> 0
                     then out @ [Separator] else out)
         in cleanLoop rooted (dropWhile (\<lambda>x. \<not> IsPathSeparator x) (c # rest))
              (out' @ takeWhile (\<lambda>x. \<not> IsPathSeparator x) (c # rest)) dotdot))"
  by pat_completeness auto
termination
  by (relation "measure (\<lambda>(rooted, rest, out, dotdot). length rest)")
     (auto simp: less_Suc_eq_le length_dropWhile_le)

definition Clean :: "string \<Rightarrow> string" where
  "Clean path =
     (if path = [] then ''.''
      else
        (let rooted = IsPathSeparator (hd path);
             out = (if rooted then cleanLoop True (tl path) [Separator] 1
                    else cleanLoop False path [] 0)
         in if out = [] then ''.'' else out))"

section \<open>Security validation\<close>

definition imageNamePattern :: regexp where
  "imageNamePattern =
     Cat (Class alnum)
       (Cat (Rep (Class (\<lambda>c. alnum c \<or> c \<in> set ''._/-''))) (Class alnum))"

definition tagPattern :: regexp where
  "tagPattern = Cat (Class alnum) (Rep (Class (\<lambda>c. alnum c \<or> c \<in> set ''._-'')))"

definition registryPattern :: regexp where
  "registryPattern =
     Cat (Class alnum)
       (Cat (Rep (Class (\<lambda>c. alnum c \<or> c \<in> set ''.-'')))
            (Opt (Cat (Class (\<lambda>c. c = CHR '':'')) (Rep1 (Class digit)))))"

definition buildArgKeyPattern :: regexp where
  "buildArgKeyPattern =
     Cat (Class (\<lambda>c. lower c \<or> upper c \<or> c = CHR ''_''))
         (Rep (Class (\<lambda>c. alnum c \<or> c = CHR ''_'')))"

definition labelKeyPattern :: regexp where
  "labelKeyPattern =
     Cat (Class (\<lambda>c. lower c \<or> upper c))
       (Cat (Rep (Class (\<lambda>c. alnum c \<or> c \<in> set ''._-''))) (Class alnum))"

definition validateImageName :: "string \<Rightarrow> string option" where
  "validateImageName name =
     (if name = [] then Some ''image name cannot be empty''
      else if length name > 256 then Some ''image name too long (max 256 characters)''
      else if \<not> MatchString imageNamePattern name
        then Some ''invalid image name: contains disallowed characters''
      else if Contains name ''..'' then Some (''image name cannot contain '..'' @ [CHR 0x27])
      else None)"

definition validateTag :: "string \<Rightarrow> string option" where
  "validateTag tag =
     (if tag = [] then Some ''tag cannot be empty''
      else if length tag > 128 then Some ''tag too long (max 128 characters)''
      else if \<not> MatchString tagPattern tag
        then Some ''invalid tag: contains disallowed characters''
      else None)"

definition validateRegistry :: "string \<Rightarrow> string option" where
  "validateRegistry registry =
     (if registry = [] \<or> registry = ''docker.io'' then None
      else if length registry > 256 then Some ''registry URL too long''
      else if \<not> MatchString registryPattern registry
        then Some ''invalid registry URL format''
      else None)"

definition validateBuildArgKey :: "string \<Rightarrow> string option" where
  "validateBuildArgKey key =
     (if \<not> MatchString buildArgKeyPattern key
        then Some ''invalid build arg key: must be alphanumeric with underscores''
      else None)"

definition validateLabelKey :: "string \<Rightarrow> string option" where
  "validateLabelKey key =
     (if key = [] then Some ''label key cannot be empty''
      else if length key > 256 then Some ''label key too long (max 256 characters)''
      else if \<not> MatchString labelKeyPattern key
        then Some ''invalid label key: must be alphanumeric with dots, dashes, or underscores''
      else None)"

definition validatePath :: "string \<Rightarrow> string option" where
  "validatePath path =
     (if path = [] then None
      else
        (let cleaned = Clean path
         in if IsAbs cleaned then Some ''absolute paths are not allowed''
            else if HasPrefix cleaned ''..'' \<or> Contains cleaned ([Separator] @ ''..'')
              then Some ''path traversal detected: cannot use '..' to escape working directory''
            else None))"

section \<open>The plugin\<close>

subsection \<open>Command execution\<close>

text \<open>
  One call of \<open>CommandExecutor.Run(ctx, name, args, stdin)\<close>; \<open>Stdin\<close> is \<open>None\<close> for a
  \<open>nil\<close> reader and otherwise the text the reader yields.  An executor is any function
  from a call and the state of the world \<open>'w\<close> to the error it returns and the new
  state.
\<close>

record RunCall =
  Name :: string
  Args :: "string list"
  Stdin :: "string option"

type_synonym 'w CommandExecutor = "RunCall \<Rightarrow> 'w \<Rightarrow> string option \<times> 'w"

text \<open>The recording executor of the test suite (\<open>MockCommandExecutor.RunCalls\<close>): it
  appends every call to a log and otherwise behaves as the executor it wraps.\<close>

definition recording :: "'w CommandExecutor \<Rightarrow> ('w \<times> RunCall list) CommandExecutor" where
  "recording ex call = (\<lambda>(w, calls).
     (case ex call w of (err, w') \<Rightarrow> (err, (w', calls @ [call]))))"

subsection \<open>Configuration, request and response\<close>

text \<open>
  \<open>BuildArgs\<close> and \<open>Labels\<close> are Go maps, given by their entries.  Go does not fix the
  order in which \<open>range\<close> visits a map, and two loops over one map may differ; each of the
  four loops over a map therefore takes its order from a \<open>MapIter\<close>, which the theorems
  leave arbitrary.
\<close>

record Config =
  Registry :: string
  Image :: string
  Tags :: "string list"
  Dockerfile :: string
  Context :: string
  BuildArgs :: "(string \<times> string) list"
  Platforms :: "string list"
  Username :: string
  Password :: string
  Push :: bool
  Labels :: "(string \<times> string) list"
  CacheFrom :: "string list"
  NoCache :: bool
  Target :: string

record MapIter =
  checkBuildArgs :: "(string \<times> string) list \<Rightarrow> (string \<times> string) list"
  checkLabels :: "(string \<times> string) list \<Rightarrow> (string \<times> string) list"
  emitBuildArgs :: "(string \<times> string) list \<Rightarrow> (string \<times> string) list"
  emitLabels :: "(string \<times> string) list \<Rightarrow> (string \<times> string) list"

record ReleaseContext =
  Version :: string

text \<open>The values stored in \<open>Outputs\<close> (\<open>map[string]any\<close>).\<close>

datatype any = String string | Strings "string list" | Bool bool

record ExecuteResponse =
  Success :: bool
  Message :: string
  Error :: string
  Outputs :: "string \<rightharpoonup> any"

text \<open>\<open>RawConfig\<close> is the request's \<open>Config\<close> field and \<open>ReleaseCtx\<close> its \<open>Context\<close> field.\<close>

record 'raw ExecuteRequest =
  Hook :: string
  RawConfig :: 'raw
  ReleaseCtx :: ReleaseContext
  DryRun :: bool

text \<open>Modelled from the spec: the SDK constant \<open>plugin.HookPostPublish\<close> is declared
  outside the repository; the spec names the hook \<open>post-publish\<close>.\<close>

definition HookPostPublish :: string where
  "HookPostPublish = ''post-publish''"

text \<open>A response literal that sets only \<open>Success\<close> and \<open>Error\<close>.\<close>

definition failed :: "string \<Rightarrow> ExecuteResponse" where
  "failed msg = \<lparr>Success = False, Message = [], Error = msg, Outputs = Map.empty\<rparr>"

text \<open>\<open>%d\<close> of a length.\<close>

function Itoa :: "nat \<Rightarrow> string" where
  "Itoa n = (if n < 10 then [char_of (48 + n)] else Itoa (n div 10) @ [char_of (48 + n mod 10)])"
  by pat_completeness simp
termination
  by (relation "measure (\<lambda>n. n)") simp_all

declare Itoa.simps [simp del]

subsection \<open>The three docker invocations\<close>

definition dockerLogin :: "'w CommandExecutor \<Rightarrow> Config \<Rightarrow> 'w \<Rightarrow> string option \<times> 'w" where
  "dockerLogin ex cfg w =
     (let registry = Registry cfg;
          registry = (if registry = [] \<or> registry = ''docker.io'' then [] else registry);
          args = [''login''];
          args = (if registry \<noteq> [] then args @ [registry] else args);
          args = args @ [''-u'', Username cfg, ''--password-stdin'']
      in ex \<lparr>Name = ''docker'', Args = args, Stdin = Some (Password cfg)\<rparr> w)"

definition dockerBuild ::
  "'w CommandExecutor \<Rightarrow> MapIter \<Rightarrow> Config \<Rightarrow> string list \<Rightarrow> ReleaseContext \<Rightarrow> 'w
     \<Rightarrow> string option \<times> 'w" where
  "dockerBuild ex iter cfg imageNames releaseCtx w =
     (let args = [''build''];
          args = foldl (\<lambda>args name. args @ [''-t'', name]) args imageNames;
          dockerfile = Dockerfile cfg;
          dockerfile = (if dockerfile = [] then ''Dockerfile'' else dockerfile);
          args = args @ [''-f'', dockerfile];
          args = foldl (\<lambda>args (key, val). args @ [''--build-arg'', key @ ''='' @ val]) args
                   (emitBuildArgs iter (BuildArgs cfg));
          args = args @ [''--build-arg'', ''VERSION='' @ Version releaseCtx];
          args = (if length (Platforms cfg) > 0
                  then args @ [''--platform'', Join (Platforms cfg) '','']
                  else args);
          args = foldl (\<lambda>args (key, val). args @ [''--label'', key @ ''='' @ val]) args
                   (emitLabels iter (Labels cfg));
          args = foldl (\<lambda>args cache. args @ [''--cache-from'', cache]) args (CacheFrom cfg);
          args = (if NoCache cfg then args @ [''--no-cache''] else args);
          args = (if Target cfg \<noteq> [] then args @ [''--target'', Target cfg] else args);
          buildContext = Context cfg;
          buildContext = (if buildContext = [] then ''.'' else buildContext);
          args = args @ [buildContext]
      in ex \<lparr>Name = ''docker'', Args = args, Stdin = None\<rparr> w)"

definition dockerPush :: "'w CommandExecutor \<Rightarrow> string \<Rightarrow> 'w \<Rightarrow> string option \<times> 'w" where
  "dockerPush ex imageName w =
     ex \<lparr>Name = ''docker'', Args = [''push'', imageName], Stdin = None\<rparr> w"

subsection \<open>\<open>buildAndPush\<close>\<close>

text \<open>The loops of \<open>buildAndPush\<close>.  A loop that returns a failure response from inside
  yields the \<open>Error\<close> text of that response.\<close>

fun checkBuildArgKeys :: "(string \<times> string) list \<Rightarrow> string option" where
  "checkBuildArgKeys [] = None"
| "checkBuildArgKeys ((key, val) # rest) =
     (case validateBuildArgKey key of
        Some err \<Rightarrow> Some (''invalid build arg key '' @ [CHR 0x27] @ key @ [CHR 0x27] @ '': '' @ err)
      | None \<Rightarrow> checkBuildArgKeys rest)"

fun checkLabelKeys :: "(string \<times> string) list \<Rightarrow> string option" where
  "checkLabelKeys [] = None"
| "checkLabelKeys ((key, val) # rest) =
     (case validateLabelKey key of
        Some err \<Rightarrow> Some (''invalid label key '' @ [CHR 0x27] @ key @ [CHR 0x27] @ '': '' @ err)
      | None \<Rightarrow> checkLabelKeys rest)"

text \<open>The four replacements applied to one tag template.\<close>

definition resolveTag :: "string \<Rightarrow> string \<Rightarrow> string \<Rightarrow> string \<Rightarrow> string \<Rightarrow> string" where
  "resolveTag version major minor patch tag =
     (let resolved = tag;
          resolved = ReplaceAll resolved ''{{version}}'' version;
          resolved = ReplaceAll resolved ''{{major}}'' major;
          resolved = ReplaceAll resolved ''{{minor}}'' minor;
          resolved = ReplaceAll resolved ''{{patch}}'' patch
      in resolved)"

fun resolveTags ::
  "string \<Rightarrow> string \<Rightarrow> string \<Rightarrow> string \<Rightarrow> string list \<Rightarrow> string list \<Rightarrow> string + string list" where
  "resolveTags version major minor patch [] resolvedTags = Inr resolvedTags"
| "resolveTags version major minor patch (tag # tags) resolvedTags =
     (let resolved = resolveTag version major minor patch tag
      in if resolved = [] then resolveTags version major minor patch tags resolvedTags
         else (case validateTag resolved of
                 Some err \<Rightarrow>
                   Inl (''invalid tag '' @ [CHR 0x27] @ resolved @ [CHR 0x27] @ '': '' @ err)
               | None \<Rightarrow>
                   resolveTags version major minor patch tags (resolvedTags @ [resolved])))"

fun pushAll :: "'w CommandExecutor \<Rightarrow> string list \<Rightarrow> 'w \<Rightarrow> string option \<times> 'w" where
  "pushAll ex [] w = (None, w)"
| "pushAll ex (imageName # rest) w =
     (case dockerPush ex imageName w of
        (Some err, w') \<Rightarrow> (Some (''failed to push image '' @ imageName @ '': '' @ err), w')
      | (None, w') \<Rightarrow> pushAll ex rest w')"

text \<open>The version string without its \<open>v\<close> prefix, and its first three components.\<close>

definition versionParts :: "string \<Rightarrow> string \<times> string \<times> string \<times> string" where
  "versionParts v =
     (let version = TrimPrefix v ''v'';
          parts = Split version CHR ''.'';
          major = (if length parts \<ge> 1 then parts ! 0 else []);
          minor = (if length parts \<ge> 2 then parts ! 1 else []);
          patch = (if length parts \<ge> 3 then parts ! 2 else [])
      in (version, major, minor, patch))"

definition imageNamesOf :: "Config \<Rightarrow> string list \<Rightarrow> string list" where
  "imageNamesOf cfg resolvedTags =
     foldl (\<lambda>imageNames tag.
        (let imageName = Image cfg;
             imageName = (if Registry cfg \<noteq> [] \<and> Registry cfg \<noteq> ''docker.io''
                          then Registry cfg @ ''/'' @ Image cfg else imageName)
         in imageNames @ [imageName @ '':'' @ tag])) [] resolvedTags"

text \<open>The result is the pair the Go function returns (the response and the \<open>error\<close>)
  together with the state the executor leaves.\<close>

definition buildAndPush ::
  "'w CommandExecutor \<Rightarrow> MapIter \<Rightarrow> Config \<Rightarrow> ReleaseContext \<Rightarrow> bool \<Rightarrow> 'w
     \<Rightarrow> (ExecuteResponse \<times> string option) \<times> 'w" where
  "buildAndPush ex iter cfg releaseCtx dryRun w =
   (case validateImageName (Image cfg) of
      Some err \<Rightarrow> ((failed (''invalid image configuration: '' @ err), None), w)
    | None \<Rightarrow>
   (case validateRegistry (Registry cfg) of
      Some err \<Rightarrow> ((failed (''invalid registry configuration: '' @ err), None), w)
    | None \<Rightarrow>
   (case validatePath (Dockerfile cfg) of
      Some err \<Rightarrow> ((failed (''invalid dockerfile path: '' @ err), None), w)
    | None \<Rightarrow>
   (case validatePath (Context cfg) of
      Some err \<Rightarrow> ((failed (''invalid build context path: '' @ err), None), w)
    | None \<Rightarrow>
   (case checkBuildArgKeys (checkBuildArgs iter (BuildArgs cfg)) of
      Some msg \<Rightarrow> ((failed msg, None), w)
    | None \<Rightarrow>
   (case checkLabelKeys (checkLabels iter (Labels cfg)) of
      Some msg \<Rightarrow> ((failed msg, None), w)
    | None \<Rightarrow>
   (case versionParts (Version releaseCtx) of (version, major, minor, patch) \<Rightarrow>
   (let tags = Tags cfg;
        tags = (if length tags = 0 then [''{{version}}'', ''latest''] else tags)
    in
   (case resolveTags version major minor patch tags [] of
      Inl msg \<Rightarrow> ((failed msg, None), w)
    | Inr resolvedTags \<Rightarrow>
   (let imageNames = imageNamesOf cfg resolvedTags
    in
    if dryRun then
      ((\<lparr>Success = True, Message = ''Would build and push Docker image'', Error = [],
         Outputs = [''image'' \<mapsto> String (Image cfg),
                    ''tags'' \<mapsto> Strings resolvedTags,
                    ''registry'' \<mapsto> String (Registry cfg)]\<rparr>, None), w)
    else
   (case (if Username cfg \<noteq> [] \<and> Password cfg \<noteq> [] then dockerLogin ex cfg w
          else (None, w)) of
      (Some err, w1) \<Rightarrow> ((failed (''failed to login to registry: '' @ err), None), w1)
    | (None, w1) \<Rightarrow>
   (case dockerBuild ex iter cfg imageNames releaseCtx w1 of
      (Some err, w2) \<Rightarrow> ((failed (''failed to build image: '' @ err), None), w2)
    | (None, w2) \<Rightarrow>
   (case (if Push cfg then pushAll ex imageNames w2 else (None, w2)) of
      (Some msg, w3) \<Rightarrow> ((failed msg, None), w3)
    | (None, w3) \<Rightarrow>
      ((\<lparr>Success = True,
         Message = ''Built and pushed Docker image with '' @ Itoa (length resolvedTags)
                   @ '' tags'',
         Error = [],
         Outputs = [''image'' \<mapsto> String (Image cfg),
                    ''tags'' \<mapsto> Strings resolvedTags,
                    ''pushed'' \<mapsto> Bool (Push cfg)]\<rparr>, None), w3))))))))))))))"

subsection \<open>\<open>Execute\<close>\<close>

text \<open>\<open>parseConfig\<close> reads the raw configuration through the SDK's \<open>ConfigParser\<close> and the
  process environment, which are outside the repository; it is a parameter.\<close>

definition Execute ::
  "'w CommandExecutor \<Rightarrow> MapIter \<Rightarrow> ('raw \<Rightarrow> Config) \<Rightarrow> 'raw ExecuteRequest \<Rightarrow> 'w
     \<Rightarrow> (ExecuteResponse \<times> string option) \<times> 'w" where
  "Execute ex iter parseConfig req w =
     (let cfg = parseConfig (RawConfig req)
      in if Hook req = HookPostPublish
         then buildAndPush ex iter cfg (ReleaseCtx req) (DryRun req) w
         else ((\<lparr>Success = True, Message = ''Hook '' @ Hook req @ '' not handled'',
                  Error = [], Outputs = Map.empty\<rparr>, None), w))"

section \<open>The behaviour the specification describes\<close>

text \<open>
  The definitions of this section follow the words of the specification, not the code;
  the theorems compare the plugin with them.
\<close>

subsection \<open>Paths\<close>

text \<open>The path segments of a normalized path: the pieces between the separators.\<close>

definition segments :: "string \<Rightarrow> string list" where
  "segments path = Split path Separator"

subsection \<open>Versions and templates\<close>

text \<open>The \<open>i\<close>-th component of a version; a missing component is the empty string.\<close>

definition component :: "string list \<Rightarrow> nat \<Rightarrow> string" where
  "component cs i = (if i < length cs then cs ! i else [])"

datatype placeholder = PVersion | PMajor | PMinor | PPatch

fun placeholderText :: "placeholder \<Rightarrow> string" where
  "placeholderText PVersion = ''{{version}}''"
| "placeholderText PMajor = ''{{major}}''"
| "placeholderText PMinor = ''{{minor}}''"
| "placeholderText PPatch = ''{{patch}}''"

text \<open>The value each placeholder stands for, given the raw version string.\<close>

fun valueOf :: "string \<Rightarrow> placeholder \<Rightarrow> string" where
  "valueOf v PVersion = fst (versionParts v)"
| "valueOf v PMajor = fst (snd (versionParts v))"
| "valueOf v PMinor = fst (snd (snd (versionParts v)))"
| "valueOf v PPatch = snd (snd (snd (versionParts v)))"

text \<open>Substituting the placeholder types one after the other, in a given order.\<close>

definition substituteIn :: "placeholder list \<Rightarrow> (placeholder \<Rightarrow> string) \<Rightarrow> string \<Rightarrow> string" where
  "substituteIn order val tag =
     foldl (\<lambda>s p. ReplaceAll s (placeholderText p) (val p)) tag order"

text \<open>A template as a sequence of literal text and placeholders; \<open>render\<close> is its
  text.  A template is plain when its literal text has no opening brace.
  \<open>renderWith filled val\<close> is the text of the template in which every placeholder of a
  type in \<open>filled\<close> is replaced by its value, once and all at the same time, and the other
  placeholders stand as they are.\<close>

datatype piece = Text string | Hole placeholder

fun render :: "piece list \<Rightarrow> string" where
  "render [] = []"
| "render (Text t # ps) = t @ render ps"
| "render (Hole p # ps) = placeholderText p @ render ps"

fun plain :: "piece list \<Rightarrow> bool" where
  "plain [] = True"
| "plain (Text t # ps) = (CHR ''{'' \<notin> set t \<and> plain ps)"
| "plain (Hole p # ps) = plain ps"

fun renderWith :: "placeholder set \<Rightarrow> (placeholder \<Rightarrow> string) \<Rightarrow> piece list \<Rightarrow> string" where
  "renderWith filled val [] = []"
| "renderWith filled val (Text t # ps) = t @ renderWith filled val ps"
| "renderWith filled val (Hole p # ps) =
     (if p \<in> filled then val p else placeholderText p) @ renderWith filled val ps"

subsection \<open>Tags and image references\<close>

definition effectiveTags :: "Config \<Rightarrow> string list" where
  "effectiveTags cfg = (if Tags cfg = [] then [''{{version}}'', ''latest''] else Tags cfg)"

text \<open>The resolved tag set: every template substituted, the empty results dropped.\<close>

definition resolvedTagSet :: "Config \<Rightarrow> ReleaseContext \<Rightarrow> string list" where
  "resolvedTagSet cfg ctx =
     filter (\<lambda>t. t \<noteq> [])
       (map (substituteIn [PVersion, PMajor, PMinor, PPatch] (valueOf (Version ctx)))
            (effectiveTags cfg))"

definition imageReference :: "Config \<Rightarrow> string \<Rightarrow> string" where
  "imageReference cfg tag =
     (if Registry cfg \<noteq> [] \<and> Registry cfg \<noteq> ''docker.io'' then Registry cfg @ ''/'' else [])
     @ Image cfg @ '':'' @ tag"

subsection \<open>Validation in the fixed order\<close>

definition report :: "string \<Rightarrow> string option \<Rightarrow> string option" where
  "report what res = map_option (\<lambda>err. what @ '': '' @ err) res"

definition reportOn :: "string \<Rightarrow> string \<Rightarrow> string option \<Rightarrow> string option" where
  "reportOn what item res =
     map_option (\<lambda>err. what @ '' '' @ [CHR 0x27] @ item @ [CHR 0x27] @ '': '' @ err) res"

text \<open>The outcome of every validator, in the order of the specification: image name,
  registry, dockerfile path, context path, build-arg keys, label keys, resolved tags.\<close>

definition validationChecks :: "MapIter \<Rightarrow> Config \<Rightarrow> ReleaseContext \<Rightarrow> string option list" where
  "validationChecks iter cfg ctx =
     [report ''invalid image configuration'' (validateImageName (Image cfg)),
      report ''invalid registry configuration'' (validateRegistry (Registry cfg)),
      report ''invalid dockerfile path'' (validatePath (Dockerfile cfg)),
      report ''invalid build context path'' (validatePath (Context cfg))]
     @ map (\<lambda>kv. reportOn ''invalid build arg key'' (fst kv) (validateBuildArgKey (fst kv)))
         (checkBuildArgs iter (BuildArgs cfg))
     @ map (\<lambda>kv. reportOn ''invalid label key'' (fst kv) (validateLabelKey (fst kv)))
         (checkLabels iter (Labels cfg))
     @ map (\<lambda>t. reportOn ''invalid tag'' t (validateTag t)) (resolvedTagSet cfg ctx)"

fun firstFailure :: "string option list \<Rightarrow> string option" where
  "firstFailure [] = None"
| "firstFailure (Some msg # rest) = Some msg"
| "firstFailure (None # rest) = firstFailure rest"

subsection \<open>The command sequence\<close>

datatype step = LoginStep | BuildStep | PushStep string

definition loginCall :: "Config \<Rightarrow> RunCall" where
  "loginCall cfg =
     \<lparr>Name = ''docker'',
      Args = [''login'']
             @ (if Registry cfg = [] \<or> Registry cfg = ''docker.io'' then [] else [Registry cfg])
             @ [''-u'', Username cfg, ''--password-stdin''],
      Stdin = Some (Password cfg)\<rparr>"

definition buildCall :: "MapIter \<Rightarrow> Config \<Rightarrow> ReleaseContext \<Rightarrow> string list \<Rightarrow> RunCall" where
  "buildCall iter cfg ctx refs =
     \<lparr>Name = ''docker'',
      Args = [''build'']
             @ concat (map (\<lambda>r. [''-t'', r]) refs)
             @ [''-f'', if Dockerfile cfg = [] then ''Dockerfile'' else Dockerfile cfg]
             @ concat (map (\<lambda>kv. [''--build-arg'', fst kv @ ''='' @ snd kv])
                         (emitBuildArgs iter (BuildArgs cfg)))
             @ [''--build-arg'', ''VERSION='' @ Version ctx]
             @ (if Platforms cfg = [] then [] else [''--platform'', Join (Platforms cfg) '',''])
             @ concat (map (\<lambda>kv. [''--label'', fst kv @ ''='' @ snd kv])
                         (emitLabels iter (Labels cfg)))
             @ concat (map (\<lambda>c. [''--cache-from'', c]) (CacheFrom cfg))
             @ (if NoCache cfg then [''--no-cache''] else [])
             @ (if Target cfg = [] then [] else [''--target'', Target cfg])
             @ [if Context cfg = [] then ''.'' else Context cfg],
      Stdin = None\<rparr>"

definition pushCall :: "string \<Rightarrow> RunCall" where
  "pushCall r = \<lparr>Name = ''docker'', Args = [''push'', r], Stdin = None\<rparr>"

text \<open>Login if both credentials are present, then build, then one push per resolved tag
  if the push flag is set.\<close>

definition plan :: "MapIter \<Rightarrow> Config \<Rightarrow> ReleaseContext \<Rightarrow> (step \<times> RunCall) list" where
  "plan iter cfg ctx =
     (let refs = map (imageReference cfg) (resolvedTagSet cfg ctx)
      in (if Username cfg \<noteq> [] \<and> Password cfg \<noteq> [] then [(LoginStep, loginCall cfg)] else [])
         @ [(BuildStep, buildCall iter cfg ctx refs)]
         @ (if Push cfg then map (\<lambda>r. (PushStep r, pushCall r)) refs else []))"

text \<open>Running steps in strict sequence: the first failure aborts the remaining steps.
  The result is the failed step with the executor's error text (if any), the final state
  and the calls made.\<close>

fun runSteps ::
  "'w CommandExecutor \<Rightarrow> (step \<times> RunCall) list \<Rightarrow> 'w \<Rightarrow> (step \<times> string) option \<times> 'w \<times> RunCall list" where
  "runSteps ex [] w = (None, w, [])"
| "runSteps ex ((st, call) # rest) w =
     (case ex call w of
        (Some err, w') \<Rightarrow> (Some (st, err), w', [call])
      | (None, w') \<Rightarrow>
          (case runSteps ex rest w' of (res, w'', calls) \<Rightarrow> (res, w'', call # calls)))"

fun stepError :: "step \<Rightarrow> string \<Rightarrow> string" where
  "stepError LoginStep err = ''failed to login to registry: '' @ err"
| "stepError BuildStep err = ''failed to build image: '' @ err"
| "stepError (PushStep r) err = ''failed to push image '' @ r @ '': '' @ err"

definition preview :: "Config \<Rightarrow> ReleaseContext \<Rightarrow> ExecuteResponse" where
  "preview cfg ctx =
     \<lparr>Success = True, Message = ''Would build and push Docker image'', Error = [],
      Outputs = [''image'' \<mapsto> String (Image cfg),
                 ''tags'' \<mapsto> Strings (resolvedTagSet cfg ctx),
                 ''registry'' \<mapsto> String (Registry cfg)]\<rparr>"

definition completed :: "Config \<Rightarrow> ReleaseContext \<Rightarrow> ExecuteResponse" where
  "completed cfg ctx =
     \<lparr>Success = True,
      Message = ''Built and pushed Docker image with ''
                @ Itoa (length (resolvedTagSet cfg ctx)) @ '' tags'',
      Error = [],
      Outputs = [''image'' \<mapsto> String (Image cfg),
                 ''tags'' \<mapsto> Strings (resolvedTagSet cfg ctx),
                 ''pushed'' \<mapsto> Bool (Push cfg)]\<rparr>"

text \<open>The whole of \<open>buildAndPush\<close> as the specification describes it, for an executor
  that records its calls.\<close>

definition orchestrate ::
  "'w CommandExecutor \<Rightarrow> MapIter \<Rightarrow> Config \<Rightarrow> ReleaseContext \<Rightarrow> bool \<Rightarrow> 'w
     \<Rightarrow> ExecuteResponse \<times> 'w \<times> RunCall list" where
  "orchestrate ex iter cfg ctx dryRun w =
     (case firstFailure (validationChecks iter cfg ctx) of
        Some msg \<Rightarrow> (failed msg, w, [])
      | None \<Rightarrow>
          if dryRun then (preview cfg ctx, w, [])
          else (case runSteps ex (plan iter cfg ctx) w of
                  (None, w', calls) \<Rightarrow> (completed cfg ctx, w', calls)
                | (Some (st, err), w', calls) \<Rightarrow> (failed (stepError st err), w', calls)))"

subsection \<open>Failure responses\<close>

text \<open>How the \<open>Error\<close> text of a failure response begins: it names the field that failed
  validation or the step that failed.\<close>

definition failureKinds :: "string list" where
  "failureKinds =
     [''invalid image configuration: '', ''invalid registry configuration: '',
      ''invalid dockerfile path: '', ''invalid build context path: '',
      ''invalid build arg key '', ''invalid label key '', ''invalid tag '',
      ''failed to login to registry: '', ''failed to build image: '',
      ''failed to push image '']"

subsection \<open>Example inputs\<close>

text \<open>The configuration \<open>parseConfig\<close> yields for \<open>{image: "myorg/myapp", push: true}\<close>
  when the environment holds no credentials.\<close>

definition exampleConfig :: Config where
  "exampleConfig =
     \<lparr>Registry = ''docker.io'', Image = ''myorg/myapp'', Tags = [], Dockerfile = ''Dockerfile'',
      Context = ''.'', BuildArgs = [], Platforms = [], Username = [], Password = [],
      Push = True, Labels = [], CacheFrom = [], NoCache = False, Target = []\<rparr>"

definition exampleIter :: MapIter where
  "exampleIter =
     \<lparr>checkBuildArgs = (\<lambda>kvs. kvs), checkLabels = rev,
      emitBuildArgs = rev, emitLabels = (\<lambda>kvs. kvs)\<rparr>"

text \<open>The mock executor of the test suite: its state is the number of calls made so far,
  and the call numbered \<open>failOnCall\<close> (from 1; 0 for none) fails with \<open>mock error\<close>.\<close>

definition mockExecutor :: "nat \<Rightarrow> nat CommandExecutor" where
  "mockExecutor failOnCall call callCount =
     (let callCount = callCount + 1
      in if failOnCall > 0 \<and> callCount = failOnCall then (Some ''mock error'', callCount)
         else (None, callCount))"

section \<open>Auxiliary facts\<close>

subsection \<open>Regular expressions\<close>

inductive_cases matches_NeverE: "matches Never s"
inductive_cases matches_EmptyE: "matches Empty s"
inductive_cases matches_ClassE: "matches (Class P) s"
inductive_cases matches_CatE: "matches (Cat r s) u"
inductive_cases matches_OrE: "matches (Or r s) u"

lemma matches_Rep_Cons:
  "matches (Rep r) (c # s) = (\<exists>u v. s = u @ v \<and> matches r (c # u) \<and> matches (Rep r) v)"
proof
  assume "matches (Rep r) (c # s)"
  then show "\<exists>u v. s = u @ v \<and> matches r (c # u) \<and> matches (Rep r) v"
  proof (induction "Rep r" "c # s" arbitrary: s rule: matches.induct)
    case (m_more u v)
    show ?case
    proof (cases u)
      case Nil
      then show ?thesis using m_more by simp
    next
      case (Cons a u')
      then show ?thesis using m_more by auto
    qed
  qed
next
  assume "\<exists>u v. s = u @ v \<and> matches r (c # u) \<and> matches (Rep r) v"
  then obtain u v where "s = u @ v" "matches r (c # u)" "matches (Rep r) v"
    by blast
  then show "matches (Rep r) (c # s)"
    using m_more [of r "c # u" v] by simp
qed

lemma matches_Cat_Nil: "matches r [] \<Longrightarrow> matches s [] \<Longrightarrow> matches (Cat r s) []"
  using m_cat [of r "[]" s "[]"] by simp

lemma nullable_matches: "nullable r = matches r []"
  by (induction r)
     (auto intro: matches.intros matches_Cat_Nil
           elim: matches_NeverE matches_EmptyE matches_ClassE matches_CatE matches_OrE)

lemma deriv_matches: "matches (deriv c r) s = matches r (c # s)"
proof (induction r arbitrary: s)
  case Never
  then show ?case by (auto elim: matches_NeverE)
next
  case Empty
  then show ?case by (auto elim: matches_NeverE matches_EmptyE)
next
  case (Class P)
  then show ?case
    by (auto intro: matches.intros elim: matches_NeverE matches_EmptyE matches_ClassE)
next
  case (Cat r1 r2)
  have "matches (Cat r1 r2) (c # s) =
        ((matches r1 [] \<and> matches r2 (c # s))
         \<or> (\<exists>u v. s = u @ v \<and> matches r1 (c # u) \<and> matches r2 v))"
  proof
    assume "matches (Cat r1 r2) (c # s)"
    then obtain u v where uv: "c # s = u @ v" "matches r1 u" "matches r2 v"
      by (auto elim: matches_CatE)
    then show "(matches r1 [] \<and> matches r2 (c # s))
         \<or> (\<exists>u v. s = u @ v \<and> matches r1 (c # u) \<and> matches r2 v)"
      by (cases u) auto
  next
    assume "(matches r1 [] \<and> matches r2 (c # s))
         \<or> (\<exists>u v. s = u @ v \<and> matches r1 (c # u) \<and> matches r2 v)"
    then show "matches (Cat r1 r2) (c # s)"
      using m_cat [of r1 "[]" r2 "c # s"] m_cat [of r1 "c # _" r2]
      by (metis append_Cons append_Nil)
  qed
  moreover have "matches (Cat (deriv c r1) r2) s =
        (\<exists>u v. s = u @ v \<and> matches r1 (c # u) \<and> matches r2 v)"
    using Cat.IH(1) by (auto intro: matches.intros elim!: matches_CatE)
  ultimately show ?case
    using Cat.IH(2) [of s]
    by (auto simp: nullable_matches intro: matches.intros elim!: matches_OrE)
next
  case (Or r1 r2)
  then show ?case by (auto intro: matches.intros elim!: matches_OrE)
next
  case (Rep r)
  have "matches (Cat (deriv c r) (Rep r)) s =
        (\<exists>u v. s = u @ v \<and> matches r (c # u) \<and> matches (Rep r) v)"
    using Rep.IH by (auto intro: matches.intros elim!: matches_CatE)
  then show ?case
    by (simp add: matches_Rep_Cons)
qed

lemma MatchString_matches: "MatchString r s = matches r s"
  by (induction s arbitrary: r) (simp_all add: nullable_matches deriv_matches)

subsection \<open>Normalized paths\<close>

lemma backtrack_bounds:
  "dotdot \<le> w \<Longrightarrow> dotdot \<le> backtrack buf dotdot w \<and> backtrack buf dotdot w \<le> w"
  by (induction w) auto

lemma hd_take_pos: "0 < n \<Longrightarrow> xs \<noteq> [] \<Longrightarrow> take n xs \<noteq> [] \<and> hd (take n xs) = hd xs"
  by (cases xs; cases n) auto

lemma cleanLoop_rooted:
  "rooted \<Longrightarrow> out \<noteq> [] \<Longrightarrow> hd out = Separator \<Longrightarrow> 1 \<le> dotdot \<Longrightarrow>
   cleanLoop rooted rest out dotdot \<noteq> [] \<and> hd (cleanLoop rooted rest out dotdot) = Separator"
proof (induction rooted rest out dotdot rule: cleanLoop.induct)
  case (1 rooted out dotdot)
  then show ?case by simp
next
  case (2 rooted c rest out dotdot)
  show ?case
  proof (cases "IsPathSeparator c \<or> dotElem (c # rest)")
    case True
    then show ?thesis using 2 by auto
  next
    case False
    show ?thesis
    proof (cases "dotdotElem (c # rest)")
      case True
      show ?thesis
      proof (cases "length out > dotdot")
        case gt: True
        let ?w = "backtrack out dotdot (length out - 1)"
        have "dotdot \<le> length out - 1"
          using gt by simp
        then have "0 < ?w"
          using backtrack_bounds [of dotdot "length out - 1" out] "2.prems"(4) by linarith
        then have "take ?w out \<noteq> [] \<and> hd (take ?w out) = Separator"
          using hd_take_pos [of ?w out] "2.prems" by simp
        then show ?thesis
          using "2.IH"(3) [OF _ _ True gt] False True gt "2.prems" by simp
      next
        case le: False
        then show ?thesis
          using "2.IH"(5) False True "2.prems" by simp
      qed
    next
      case nd: False
      let ?out' = "(if rooted \<and> length out \<noteq> 1 \<or> \<not> rooted \<and> length out \<noteq> 0
                     then out @ [Separator] else out)"
      have "?out' @ takeWhile (\<lambda>x. \<not> IsPathSeparator x) (c # rest) \<noteq> []
          \<and> hd (?out' @ takeWhile (\<lambda>x. \<not> IsPathSeparator x) (c # rest)) = Separator"
        using "2.prems" by auto
      then show ?thesis
        using "2.IH"(6) [OF _ _ nd refl] False nd "2.prems" by (simp add: Let_def)
    qed
  qed
qed


lemma hd_take_same: "take n xs = [] \<or> hd (take n xs) = hd xs"
  by (cases xs; cases n) auto

lemma cleanLoop_unrooted:
  "\<not> rooted \<Longrightarrow> out = [] \<or> hd out \<noteq> Separator \<Longrightarrow>
   cleanLoop rooted rest out dotdot = [] \<or> hd (cleanLoop rooted rest out dotdot) \<noteq> Separator"
proof (induction rooted rest out dotdot rule: cleanLoop.induct)
  case (1 rooted out dotdot)
  then show ?case by simp
next
  case (2 rooted c rest out dotdot)
  show ?case
  proof (cases "IsPathSeparator c \<or> dotElem (c # rest)")
    case True
    then show ?thesis using 2 by auto
  next
    case False
    show ?thesis
    proof (cases "dotdotElem (c # rest)")
      case True
      show ?thesis
      proof (cases "length out > dotdot")
        case gt: True
        let ?w = "backtrack out dotdot (length out - 1)"
        have "take ?w out = [] \<or> hd (take ?w out) \<noteq> Separator"
          using hd_take_same [of ?w out] "2.prems" by auto
        then show ?thesis
          using "2.IH"(3) [OF _ _ True gt] False True gt "2.prems" by simp
      next
        case le: False
        let ?out' = "(if length out > 0 then out @ [Separator] else out) @ ''..''"
        have "?out' = [] \<or> hd ?out' \<noteq> Separator"
          using "2.prems" by (auto simp: Separator_def)
        then show ?thesis
          using "2.IH"(4) [OF _ _ True le _ refl] False True le "2.prems" by (simp add: Let_def)
      qed
    next
      case nd: False
      let ?out' = "(if rooted \<and> length out \<noteq> 1 \<or> \<not> rooted \<and> length out \<noteq> 0
                     then out @ [Separator] else out)"
      have c: "\<not> IsPathSeparator c"
        using False by simp
      have "?out' @ takeWhile (\<lambda>x. \<not> IsPathSeparator x) (c # rest) = []
          \<or> hd (?out' @ takeWhile (\<lambda>x. \<not> IsPathSeparator x) (c # rest)) \<noteq> Separator"
        using "2.prems" c by (auto simp: IsPathSeparator_def)
      then show ?thesis
        using "2.IH"(6) [OF _ _ nd refl] False nd "2.prems" by (simp add: Let_def)
    qed
  qed
qed

lemma Clean_IsAbs: "IsAbs (Clean path) = IsAbs path"
proof (cases path)
  case Nil
  then show ?thesis by (simp add: Clean_def IsAbs_def HasPrefix_def)
next
  case (Cons c rest)
  show ?thesis
  proof (cases "IsPathSeparator c")
    case True
    then show ?thesis
      using cleanLoop_rooted [of True "[Separator]" 1 rest]
      by (cases "cleanLoop True rest [Separator] 1")
         (auto simp: Cons Clean_def IsAbs_def HasPrefix_def IsPathSeparator_def Separator_def Let_def)
  next
    case False
    then show ?thesis
      using cleanLoop_unrooted [of False "[]" path 0]
      by (cases "cleanLoop False path [] 0")
         (auto simp: Cons Clean_def IsAbs_def HasPrefix_def IsPathSeparator_def Separator_def Let_def)
  qed
qed

subsection \<open>Splitting and path segments\<close>

lemma Split_not_Nil: "Split s sep \<noteq> []"
  by (induction s) (auto split: list.splits)

lemma hd_Split: "hd (Split s sep) = takeWhile (\<lambda>x. x \<noteq> sep) s"
  using Split_not_Nil [of _ sep]
  by (induction s) (auto split: list.splits)

lemma tl_Split_Cons:
  "tl (Split (c # s) sep) = (if c = sep then Split s sep else tl (Split s sep))"
  using Split_not_Nil [of s sep] by (auto split: list.splits)

lemma prefix_dotdot_takeWhile:
  "prefix ''..'' (takeWhile (\<lambda>x. x \<noteq> CHR ''/'') s) = prefix ''..'' s"
proof (cases s)
  case Nil
  then show ?thesis by simp
next
  case (Cons a t)
  then show ?thesis by (cases t) auto
qed

lemma exists_hd_tl:
  "xs \<noteq> [] \<Longrightarrow> (\<exists>x \<in> set xs. P x) = (P (hd xs) \<or> (\<exists>x \<in> set (tl xs). P x))"
  by (cases xs) auto

lemma Contains_slash_dotdot:
  "Contains s ''/..'' = (\<exists>seg \<in> set (tl (Split s CHR ''/'')). prefix ''..'' seg)"
proof (induction s)
  case Nil
  then show ?case by simp
next
  case (Cons c s)
  show ?case
  proof (cases "c = CHR ''/''")
    case True
    then show ?thesis
      using Cons.IH exists_hd_tl [OF Split_not_Nil, of s "CHR ''/''" "prefix ''..''"]
      by (simp add: tl_Split_Cons hd_Split prefix_dotdot_takeWhile del: Split.simps)
  next
    case False
    then show ?thesis
      using Cons.IH by (simp add: tl_Split_Cons del: Split.simps)
  qed
qed

lemma dotdot_segments:
  "(prefix ''..'' s \<or> Contains s ''/..'') = (\<exists>seg \<in> set (Split s CHR ''/''). prefix ''..'' seg)"
  using exists_hd_tl [OF Split_not_Nil, of s "CHR ''/''" "prefix ''..''"]
  by (simp add: Contains_slash_dotdot hd_Split prefix_dotdot_takeWhile)

lemma Split_dotfree: "sep \<notin> set c \<Longrightarrow> Split c sep = [c]"
  by (induction c) auto

lemma Split_append_sep:
  "sep \<notin> set c \<Longrightarrow> Split (c @ sep # s) sep = c # Split s sep"
  by (induction c) auto

lemma Split_Join:
  "cs \<noteq> [] \<Longrightarrow> \<forall>c \<in> set cs. sep \<notin> set c \<Longrightarrow> Split (Join cs [sep]) sep = cs"
proof (induction cs "[sep]" rule: Join.induct)
  case 1
  then show ?case by simp
next
  case (2 e)
  then show ?case by (simp add: Split_dotfree)
next
  case (3 e v va)
  then show ?case by (simp add: Split_append_sep del: Split.simps)
qed

lemma Join_Split: "Join (Split s sep) [sep] = s \<and> (\<forall>c \<in> set (Split s sep). sep \<notin> set c)"
proof (induction s)
  case Nil
  then show ?case by simp
next
  case (Cons a s)
  obtain p ps where sp: "Split s sep = p # ps"
    using Split_not_Nil [of s sep] by (cases "Split s sep") auto
  show ?case
  proof (cases "a = sep")
    case True
    then show ?thesis using Cons sp by simp
  next
    case False
    then show ?thesis using Cons sp by (cases ps) auto
  qed
qed

subsection \<open>Version components\<close>

lemma component_guard:
  "(if length cs \<ge> Suc i then cs ! i else []) = component cs i"
  by (simp add: component_def Suc_le_eq)

lemma versionParts_Join:
  assumes "cs \<noteq> []" and "\<forall>c \<in> set cs. CHR ''.'' \<notin> set c"
    and "TrimPrefix ver ''v'' = Join cs ''.''"
  shows "versionParts ver = (Join cs ''.'', component cs 0, component cs 1, component cs 2)"
proof -
  have s: "Split (Join cs ''.'') CHR ''.'' = cs"
    using assms(1,2) by (rule Split_Join)
  have n: "(1::nat) = Suc 0" "(2::nat) = Suc 1" "(3::nat) = Suc 2"
    by simp_all
  show ?thesis
    unfolding versionParts_def Let_def assms(3) s n(2,3) component_guard
    unfolding n(1) component_guard by simp
qed

lemma Split_set: "p \<in> set (Split s sep) \<Longrightarrow> set p \<subseteq> set s"
proof (induction s arbitrary: p)
  case Nil
  then show ?case by simp
next
  case (Cons a s)
  obtain x xs where sp: "Split s sep = x # xs"
    using Split_not_Nil [of s sep] by (cases "Split s sep") auto
  show ?case
  proof (cases "a = sep")
    case True
    then show ?thesis using Cons by auto
  next
    case False
    then have "p = a # x \<or> p \<in> set xs"
      using Cons.prems sp by simp
    then show ?thesis
      using Cons.IH [of x] Cons.IH [of p] sp by auto
  qed
qed

lemma versionParts_component:
  "versionParts v =
     (TrimPrefix v ''v'', component (Split (TrimPrefix v ''v'') CHR ''.'') 0,
      component (Split (TrimPrefix v ''v'') CHR ''.'') 1,
      component (Split (TrimPrefix v ''v'') CHR ''.'') 2)"
proof -
  have n: "(1::nat) = Suc 0" "(2::nat) = Suc 1" "(3::nat) = Suc 2"
    by simp_all
  show ?thesis
    unfolding versionParts_def Let_def n(2,3) component_guard
    unfolding n(1) component_guard by simp
qed

lemma component_set: "set (component (Split s sep) i) \<subseteq> set s"
  using Split_set [of "Split s sep ! i" s sep] by (auto simp: component_def)

lemma valueOf_set: "set (valueOf v p) \<subseteq> set v"
proof -
  have t: "set (TrimPrefix v ''v'') \<subseteq> set v"
    by (auto simp: TrimPrefix_def dest: in_set_dropD)
  show ?thesis
    using t component_set [of "TrimPrefix v ''v''" "CHR ''.''"]
    by (cases p) (auto simp: versionParts_component simp del: One_nat_def)
qed

subsection \<open>Template substitution\<close>

lemma ReplaceAll_skip:
  "CHR ''{'' \<notin> set t \<Longrightarrow>
   ReplaceAll (t @ s) (CHR ''{'' # old) new = t @ ReplaceAll s (CHR ''{'' # old) new"
  by (induction t) auto

lemma ReplaceAll_Nil_placeholder: "ReplaceAll [] (placeholderText p) new = []"
  by (cases p) simp_all

lemma ReplaceAll_skip_text:
  "CHR ''{'' \<notin> set t \<Longrightarrow>
   ReplaceAll (t @ s) (placeholderText p) new = t @ ReplaceAll s (placeholderText p) new"
  by (cases p) (simp_all add: ReplaceAll_skip del: ReplaceAll.simps)

lemma ReplaceAll_hit:
  "ReplaceAll (placeholderText p @ s) (placeholderText p) new
     = new @ ReplaceAll s (placeholderText p) new"
  by (cases p) simp_all

lemma ReplaceAll_miss:
  "q \<noteq> p \<Longrightarrow>
   ReplaceAll (placeholderText q @ s) (placeholderText p) new
     = placeholderText q @ ReplaceAll s (placeholderText p) new"
  by (cases p; cases q) simp_all

lemma ReplaceAll_renderWith:
  assumes "\<And>q. CHR ''{'' \<notin> set (val q)"
  shows "plain ps \<Longrightarrow>
    ReplaceAll (renderWith filled val ps) (placeholderText p) (val p)
      = renderWith (insert p filled) val ps"
proof (induction ps rule: plain.induct)
  case 1
  then show ?case by (simp add: ReplaceAll_Nil_placeholder)
next
  case (2 t ps)
  then show ?case by (simp add: ReplaceAll_skip_text del: ReplaceAll.simps)
next
  case (3 q ps)
  then show ?case
    using assms by (simp add: ReplaceAll_skip_text ReplaceAll_hit ReplaceAll_miss del: ReplaceAll.simps)
qed

lemma substituteIn_renderWith:
  assumes "\<And>q. CHR ''{'' \<notin> set (val q)" and "plain ps"
  shows "substituteIn order val (renderWith filled val ps)
      = renderWith (filled \<union> set order) val ps"
  unfolding substituteIn_def
proof (induction order arbitrary: filled)
  case Nil
  then show ?case by simp
next
  case (Cons p order)
  have step: "ReplaceAll (renderWith filled val ps) (placeholderText p) (val p)
      = renderWith (insert p filled) val ps"
    using assms by (rule ReplaceAll_renderWith)
  show ?case
    using Cons.IH [of "insert p filled"] by (simp add: step)
qed

lemma render_renderWith: "render ps = renderWith {} val ps"
  by (induction ps rule: render.induct) simp_all

subsection \<open>The plugin against the described behaviour\<close>

lemma recording_apply:
  "recording ex c (w, calls) = (fst (ex c w), (snd (ex c w), calls @ [c]))"
  by (simp add: recording_def split: prod.splits)

lemma foldl_append_concat:
  "foldl (\<lambda>acc x. acc @ f x) acc xs = acc @ concat (map f xs)"
  by (induction xs arbitrary: acc) simp_all

lemma foldl_append_concat_pair:
  "foldl (\<lambda>acc (k, v). acc @ f k v) acc xs = acc @ concat (map (\<lambda>kv. f (fst kv) (snd kv)) xs)"
  by (induction xs arbitrary: acc) (simp_all add: case_prod_beta)

lemma dockerLogin_call: "dockerLogin ex cfg w = ex (loginCall cfg) w"
  by (simp add: dockerLogin_def loginCall_def Let_def)

lemma dockerBuild_call: "dockerBuild ex iter cfg refs ctx w = ex (buildCall iter cfg ctx refs) w"
  by (simp add: dockerBuild_def buildCall_def Let_def foldl_append_concat foldl_append_concat_pair)

lemma dockerPush_call: "dockerPush ex r w = ex (pushCall r) w"
  by (simp add: dockerPush_def pushCall_def)

lemma imageNamesOf_map: "imageNamesOf cfg tags = map (imageReference cfg) tags"
proof -
  have "imageNamesOf cfg tags = foldl (\<lambda>acc tag. acc @ [imageReference cfg tag]) [] tags"
    unfolding imageNamesOf_def imageReference_def Let_def
    by (rule arg_cong [where f = "\<lambda>f. foldl f [] tags"]) (auto simp: fun_eq_iff)
  also have "\<dots> = map (imageReference cfg) tags"
    using foldl_append_concat [of "\<lambda>tag. [imageReference cfg tag]" "[]" tags]
    by (simp add: concat_map_singleton)
  finally show ?thesis .
qed

lemma firstFailure_append:
  "firstFailure (xs @ ys) = (case firstFailure xs of Some msg \<Rightarrow> Some msg | None \<Rightarrow> firstFailure ys)"
  by (induction xs rule: firstFailure.induct) simp_all

lemma checkBuildArgKeys_firstFailure:
  "checkBuildArgKeys kvs =
     firstFailure (map (\<lambda>kv. reportOn ''invalid build arg key'' (fst kv) (validateBuildArgKey (fst kv))) kvs)"
  by (induction kvs rule: checkBuildArgKeys.induct) (auto simp: reportOn_def split: option.splits)

lemma checkLabelKeys_firstFailure:
  "checkLabelKeys kvs =
     firstFailure (map (\<lambda>kv. reportOn ''invalid label key'' (fst kv) (validateLabelKey (fst kv))) kvs)"
  by (induction kvs rule: checkLabelKeys.induct) (auto simp: reportOn_def split: option.splits)

lemma versionParts_valueOf:
  "versionParts v = (valueOf v PVersion, valueOf v PMajor, valueOf v PMinor, valueOf v PPatch)"
  by simp

lemma resolveTag_substituteIn:
  "resolveTag (valueOf v PVersion) (valueOf v PMajor) (valueOf v PMinor) (valueOf v PPatch) tag =
     substituteIn [PVersion, PMajor, PMinor, PPatch] (valueOf v) tag"
  by (simp add: resolveTag_def substituteIn_def Let_def del: valueOf.simps)

lemma resolveTags_firstFailure:
  "resolveTags version major minor patch tags acc =
     (case firstFailure (map (\<lambda>t. reportOn ''invalid tag'' t (validateTag t))
                          (filter (\<lambda>t. t \<noteq> []) (map (resolveTag version major minor patch) tags))) of
        Some msg \<Rightarrow> Inl msg
      | None \<Rightarrow> Inr (acc @ filter (\<lambda>t. t \<noteq> []) (map (resolveTag version major minor patch) tags)))"
  by (induction tags arbitrary: acc) (auto simp: Let_def reportOn_def split: option.splits)

lemma runSteps_append:
  "runSteps ex (xs @ ys) w =
     (case runSteps ex xs w of
        (Some f, w', calls) \<Rightarrow> (Some f, w', calls)
      | (None, w', calls) \<Rightarrow>
          (case runSteps ex ys w' of (res, w'', calls') \<Rightarrow> (res, w'', calls @ calls')))"
  by (induction xs arbitrary: w) (auto split: prod.splits option.splits)

lemma pushAll_runSteps:
  "pushAll ex refs w =
     (case runSteps ex (map (\<lambda>r. (PushStep r, pushCall r)) refs) w of
        (None, w', calls) \<Rightarrow> (None, w')
      | (Some (st, err), w', calls) \<Rightarrow> (Some (stepError st err), w'))"
  by (induction refs arbitrary: w)
     (auto simp: dockerPush_call split: prod.splits option.splits)

lemma runSteps_recording:
  "runSteps (recording ex) steps (w, calls0) =
     (case runSteps ex steps w of (res, w', calls) \<Rightarrow> (res, (w', calls0 @ calls), calls))"
  by (induction steps arbitrary: w calls0)
     (auto simp: recording_apply split: prod.splits option.splits)

lemma report_None: "(report what res = None) = (res = None)"
  by (simp add: report_def)

lemma execution_part:
  "(case (if Username cfg \<noteq> [] \<and> Password cfg \<noteq> [] then dockerLogin ex cfg w
          else (None, w)) of
      (Some err, w1) \<Rightarrow> ((failed (''failed to login to registry: '' @ err), None), w1)
    | (None, w1) \<Rightarrow>
   (case dockerBuild ex iter cfg (map (imageReference cfg) (resolvedTagSet cfg ctx)) ctx w1 of
      (Some err, w2) \<Rightarrow> ((failed (''failed to build image: '' @ err), None), w2)
    | (None, w2) \<Rightarrow>
   (case (if Push cfg then pushAll ex (map (imageReference cfg) (resolvedTagSet cfg ctx)) w2 else (None, w2)) of
      (Some msg, w3) \<Rightarrow> ((failed msg, None), w3)
    | (None, w3) \<Rightarrow> ((completed cfg ctx, None), w3))))
   = (case runSteps ex (plan iter cfg ctx) w of
        (None, w', calls) \<Rightarrow> ((completed cfg ctx, None), w')
      | (Some (st, err), w', calls) \<Rightarrow> ((failed (stepError st err), None), w'))"
proof -
  define refs where "refs = map (imageReference cfg) (resolvedTagSet cfg ctx)"
  define pushes where "pushes = map (\<lambda>r. (PushStep r, pushCall r)) refs"
  have tail: "(case dockerBuild ex iter cfg refs ctx w1 of
      (Some err, w2) \<Rightarrow> ((failed (''failed to build image: '' @ err), None), w2)
    | (None, w2) \<Rightarrow>
   (case (if Push cfg then pushAll ex refs w2 else (None, w2)) of
      (Some msg, w3) \<Rightarrow> ((failed msg, None), w3)
    | (None, w3) \<Rightarrow> ((completed cfg ctx, None), w3)))
   = (case runSteps ex ((BuildStep, buildCall iter cfg ctx refs) # (if Push cfg then pushes else [])) w1 of
        (None, w', calls) \<Rightarrow> ((completed cfg ctx, None), w')
      | (Some (st, err), w', calls) \<Rightarrow> ((failed (stepError st err), None), w'))" for w1
  proof -
    obtain r2 w2 where e2: "ex (buildCall iter cfg ctx refs) w1 = (r2, w2)"
      by fastforce
    obtain r3 w3 c3 where e3: "runSteps ex pushes w2 = (r3, w3, c3)"
      using prod_cases3 by blast
    show ?thesis
      by (cases r2; cases r3)
         (auto simp: dockerBuild_call pushAll_runSteps pushes_def [symmetric] e2 e3)
  qed
  obtain r1 w1 where e1: "ex (loginCall cfg) w = (r1, w1)"
    by fastforce
  have p: "plan iter cfg ctx =
      (if Username cfg \<noteq> [] \<and> Password cfg \<noteq> [] then [(LoginStep, loginCall cfg)] else [])
      @ (BuildStep, buildCall iter cfg ctx refs) # (if Push cfg then pushes else [])"
    by (simp add: plan_def Let_def refs_def pushes_def)
  show ?thesis
    unfolding p refs_def [symmetric] tail
    by (cases r1) (auto simp: dockerLogin_call e1 split: prod.splits option.splits)
qed

lemma resolvedTagSet_resolveTag:
  assumes "versionParts (Version ctx) = (version, major, minor, patch)"
  shows "filter (\<lambda>t. t \<noteq> []) (map (resolveTag version major minor patch)
      (if length (Tags cfg) = 0 then [''{{version}}'', ''latest''] else Tags cfg))
   = resolvedTagSet cfg ctx"
proof -
  have "resolveTag version major minor patch =
        substituteIn [PVersion, PMajor, PMinor, PPatch] (valueOf (Version ctx))"
    using assms by (simp add: fun_eq_iff resolveTag_def substituteIn_def Let_def)
  moreover have "(if length (Tags cfg) = 0 then [''{{version}}'', ''latest''] else Tags cfg)
        = effectiveTags cfg"
    by (simp add: effectiveTags_def)
  ultimately show ?thesis
    by (simp only: resolvedTagSet_def)
qed

lemma validation_part:
  assumes vp: "versionParts (Version ctx) = (version, major, minor, patch)"
  shows "firstFailure (validationChecks iter cfg ctx) =
    (case validateImageName (Image cfg) of
      Some err \<Rightarrow> Some (''invalid image configuration: '' @ err)
    | None \<Rightarrow>
   (case validateRegistry (Registry cfg) of
      Some err \<Rightarrow> Some (''invalid registry configuration: '' @ err)
    | None \<Rightarrow>
   (case validatePath (Dockerfile cfg) of
      Some err \<Rightarrow> Some (''invalid dockerfile path: '' @ err)
    | None \<Rightarrow>
   (case validatePath (Context cfg) of
      Some err \<Rightarrow> Some (''invalid build context path: '' @ err)
    | None \<Rightarrow>
   (case checkBuildArgKeys (checkBuildArgs iter (BuildArgs cfg)) of
      Some msg \<Rightarrow> Some msg
    | None \<Rightarrow>
   (case checkLabelKeys (checkLabels iter (Labels cfg)) of
      Some msg \<Rightarrow> Some msg
    | None \<Rightarrow>
   (case resolveTags version major minor patch
           (if length (Tags cfg) = 0 then [''{{version}}'', ''latest''] else Tags cfg) [] of
      Inl msg \<Rightarrow> Some msg
    | Inr resolvedTags \<Rightarrow> None)))))))"
  unfolding validationChecks_def resolveTags_firstFailure resolvedTagSet_resolveTag [OF vp]
    checkBuildArgKeys_firstFailure checkLabelKeys_firstFailure
  by (simp add: firstFailure_append report_def split: option.splits)

lemma resolveTags_passed:
  assumes vp: "versionParts (Version ctx) = (version, major, minor, patch)"
    and "resolveTags version major minor patch
           (if length (Tags cfg) = 0 then [''{{version}}'', ''latest''] else Tags cfg) [] = Inr resolvedTags"
  shows "resolvedTags = resolvedTagSet cfg ctx"
  using assms(2) unfolding resolveTags_firstFailure resolvedTagSet_resolveTag [OF vp]
  by (simp split: option.splits)

lemma buildAndPush_orchestrate:
  "buildAndPush ex iter cfg ctx dryRun w =
     (case orchestrate ex iter cfg ctx dryRun w of
        (resp, w', calls) \<Rightarrow> ((resp, None), w'))"
proof -
  obtain version major minor patch
    where vp: "versionParts (Version ctx) = (version, major, minor, patch)"
    using prod_cases4 by blast
  note ff = validation_part [OF vp, of iter cfg]
  show ?thesis
  proof (cases "firstFailure (validationChecks iter cfg ctx)")
    case (Some msg)
    have "buildAndPush ex iter cfg ctx dryRun w = ((failed msg, None), w)"
      using Some unfolding ff buildAndPush_def vp
      by (simp add: Let_def split: option.splits sum.splits split del: if_split)
    then show ?thesis
      by (simp add: orchestrate_def Some)
  next
    case None
    then obtain rs where valid:
      "validateImageName (Image cfg) = None" "validateRegistry (Registry cfg) = None"
      "validatePath (Dockerfile cfg) = None" "validatePath (Context cfg) = None"
      "checkBuildArgKeys (checkBuildArgs iter (BuildArgs cfg)) = None"
      "checkLabelKeys (checkLabels iter (Labels cfg)) = None"
      and rs: "resolveTags version major minor patch
           (if length (Tags cfg) = 0 then [''{{version}}'', ''latest''] else Tags cfg) [] = Inr rs"
      unfolding ff by (auto split: option.splits sum.splits split del: if_split)
    have r: "rs = resolvedTagSet cfg ctx"
      using vp rs by (rule resolveTags_passed)
    show ?thesis
    proof (cases dryRun)
      case True
      have "buildAndPush ex iter cfg ctx dryRun w = ((preview cfg ctx, None), w)"
        unfolding buildAndPush_def vp using valid rs True
        by (simp add: Let_def preview_def r split del: if_split)
      then show ?thesis
        by (simp add: orchestrate_def None True)
    next
      case False
      have "buildAndPush ex iter cfg ctx dryRun w =
         (case runSteps ex (plan iter cfg ctx) w of
            (None, w', calls) \<Rightarrow> ((completed cfg ctx, None), w')
          | (Some (st, err), w', calls) \<Rightarrow> ((failed (stepError st err), None), w'))"
        unfolding buildAndPush_def vp completed_def
        using valid rs False
          execution_part [where cfg = cfg and ex = ex and w = w  and iter = iter and ctx = ctx, unfolded completed_def]
        by (simp add: Let_def imageNamesOf_map r split del: if_split)
      then show ?thesis
        by (simp add: orchestrate_def None False split: prod.splits option.splits)
    qed
  qed
qed


lemma buildAndPush_recording:
  "buildAndPush (recording ex) iter cfg ctx dryRun (w, calls0) =
     (case orchestrate ex iter cfg ctx dryRun w of
        (resp, w', calls) \<Rightarrow> ((resp, None), (w', calls0 @ calls)))"
  unfolding buildAndPush_orchestrate orchestrate_def runSteps_recording
  by (auto split: option.splits prod.splits)

lemma firstFailure_None: "(firstFailure cs = None) = (\<forall>c \<in> set cs. c = None)"
  by (induction cs rule: firstFailure.induct) simp_all

lemma firstFailure_Some: "firstFailure cs = Some msg \<Longrightarrow> Some msg \<in> set cs"
  by (induction cs rule: firstFailure.induct) auto

lemma runSteps_calls_prefix: "prefix (snd (snd (runSteps ex steps w))) (map snd steps)"
proof (induction steps arbitrary: w)
  case Nil
  then show ?case by simp
next
  case (Cons a steps)
  obtain st c where a: "a = (st, c)"
    by (cases a)
  obtain r w1 where e: "ex c w = (r, w1)"
    by (cases "ex c w")
  show ?case
    using Cons.IH [of w1] by (cases r) (auto simp: a e split: prod.splits)
qed

lemma resolvedTagSet_source:
  "resolvedTagSet cfg ctx =
     (case versionParts (Version ctx) of (version, major, minor, patch) \<Rightarrow>
        filter (\<lambda>t. t \<noteq> []) (map (resolveTag version major minor patch)
          (if length (Tags cfg) = 0 then [''{{version}}'', ''latest''] else Tags cfg)))"
proof -
  obtain version major minor patch
    where vp: "versionParts (Version ctx) = (version, major, minor, patch)"
    using prod_cases4 by blast
  show ?thesis
    unfolding vp prod.case by (rule resolvedTagSet_resolveTag [OF vp, symmetric])
qed

lemma orchestrate_calls_prefix:
  "prefix (snd (snd (orchestrate ex iter cfg ctx dryRun w))) (map snd (plan iter cfg ctx))"
  using runSteps_calls_prefix [of ex "plan iter cfg ctx" w]
  by (auto simp: orchestrate_def split: option.splits prod.splits)

lemma orchestrate_tags:
  "Success (fst (orchestrate ex iter cfg ctx dryRun w)) \<Longrightarrow>
   Outputs (fst (orchestrate ex iter cfg ctx dryRun w)) ''tags''
     = Some (Strings (resolvedTagSet cfg ctx))"
  by (auto simp: orchestrate_def failed_def preview_def completed_def
           split: option.splits prod.splits if_splits)

lemma prefix_same_length: "prefix xs ys \<Longrightarrow> length xs = length ys \<Longrightarrow> xs = ys"
  by (auto simp: prefix_def)



lemma report_prefix: "Some msg = report what res \<Longrightarrow> prefix (what @ '': '') msg"
  by (cases res) (auto simp: report_def)

lemma reportOn_prefix: "Some msg = reportOn what item res \<Longrightarrow> prefix (what @ '' '') msg"
  by (cases res) (auto simp: reportOn_def)

lemma check_failure_kind:
  assumes "Some msg \<in> set (validationChecks iter cfg ctx)"
  shows "\<exists>kind \<in> set failureKinds. prefix kind msg"
proof -
  have "(\<exists>what \<in> {''invalid image configuration'', ''invalid registry configuration'',
            ''invalid dockerfile path'', ''invalid build context path''}. prefix (what @ '': '') msg)
        \<or> (\<exists>what \<in> {''invalid build arg key'', ''invalid label key'', ''invalid tag''}.
              prefix (what @ '' '') msg)"
    using assms unfolding validationChecks_def
    by (auto dest: report_prefix reportOn_prefix)
  then show ?thesis
    by (auto simp: failureKinds_def)
qed

lemma stepError_kind: "\<exists>kind \<in> set failureKinds. prefix kind (stepError st err)"
  by (cases st) (simp_all add: failureKinds_def)

lemma orchestrate_response:
  "(Success (fst (orchestrate ex iter cfg ctx dryRun w))
      \<and> Error (fst (orchestrate ex iter cfg ctx dryRun w)) = [])
   \<or> (\<not> Success (fst (orchestrate ex iter cfg ctx dryRun w))
      \<and> (\<exists>kind \<in> set failureKinds. prefix kind (Error (fst (orchestrate ex iter cfg ctx dryRun w)))))"
proof (cases "firstFailure (validationChecks iter cfg ctx)")
  case (Some msg)
  then show ?thesis
    using check_failure_kind [OF firstFailure_Some [OF Some]]
    by (simp add: orchestrate_def failed_def)
next
  case None
  obtain res w' calls where r: "runSteps ex (plan iter cfg ctx) w = (res, w', calls)"
    using prod_cases3 by blast
  show ?thesis
  proof (cases res)
    case None
    then show ?thesis
      using \<open>firstFailure (validationChecks iter cfg ctx) = None\<close> r
      by (simp add: orchestrate_def preview_def completed_def)
  next
    case (Some f)
    obtain st err where f: "f = (st, err)"
      by (cases f)
    show ?thesis
      using \<open>firstFailure (validationChecks iter cfg ctx) = None\<close> r Some f stepError_kind [of st err]
      by (simp add: orchestrate_def preview_def failed_def)
  qed
qed

text \<open>What \<open>validatePath\<close> computes: it rejects a non-empty path exactly when the
  normalized form is absolute or one of its segments begins with the two characters
  \<open>..\<close>, whether or not the segment ends there.\<close>

lemma validatePath_rejects_iff:
  "(validatePath p = None) =
     (p = [] \<or> (\<not> IsAbs (Clean p) \<and> (\<forall>seg \<in> set (segments (Clean p)). \<not> prefix ''..'' seg)))"
  using dotdot_segments [of "Clean p"]
  by (simp add: validatePath_def Let_def HasPrefix_def Separator_def segments_def)

section \<open>Path validation\<close>

text \<open>
  C1.  The claim is what the function is written to do: its comment says it prevents path
  traversal and its error text speaks of \<open>..\<close> used to escape the working directory.  The
  code does not do it for every path.  The relative path \<open>a/..b\<close> is its own normalized
  form, its segments are \<open>a\<close> and \<open>..b\<close>, none of them is \<open>..\<close>, and \<open>validatePath\<close> rejects
  it as a path traversal: the test for the text \<open>/..\<close> finds the start of a \<open>..\<close> segment and
  does not check that the segment ends there.
\<close>

theorem validatePath_dotdot_name_rejected:
  "Clean ''a/..b'' = ''a/..b'' \<and> \<not> IsAbs (Clean ''a/..b'')
   \<and> segments (Clean ''a/..b'') = [''a'', ''..b'']
   \<and> validatePath ''a/..b''
       = Some ''path traversal detected: cannot use '..' to escape working directory''"
  by code_simp

section \<open>Version components\<close>

text \<open>
  C3.  Every version string is, after one optional leading \<open>v\<close>, a dot-separated list of
  components (none of which contains a dot), in exactly one way up to that list.  For such
  a list \<open>cs\<close> the plugin computes the stripped version \<open>Join cs "."\<close>, and major, minor
  and patch are the first, second and third component, a missing one being the empty
  string.  For \<open>v1.2\<close> this gives major \<open>1\<close>, minor \<open>2\<close> and the empty patch.
\<close>

theorem versionParts_components:
  "(cs \<noteq> [] \<and> (\<forall>c \<in> set cs. CHR ''.'' \<notin> set c)
      \<and> (ver = ''v'' @ Join cs ''.'' \<or> ver = Join cs ''.'' \<and> \<not> prefix ''v'' ver)
    \<longrightarrow> versionParts ver = (Join cs ''.'', component cs 0, component cs 1, component cs 2))
   \<and> (\<exists>cs. cs \<noteq> [] \<and> (\<forall>c \<in> set cs. CHR ''.'' \<notin> set c)
      \<and> (ver = ''v'' @ Join cs ''.'' \<or> ver = Join cs ''.'' \<and> \<not> prefix ''v'' ver))"
proof (intro conjI impI)
  assume a: "cs \<noteq> [] \<and> (\<forall>c \<in> set cs. CHR ''.'' \<notin> set c)
      \<and> (ver = ''v'' @ Join cs ''.'' \<or> ver = Join cs ''.'' \<and> \<not> prefix ''v'' ver)"
  then have "TrimPrefix ver ''v'' = Join cs ''.''"
    by (auto simp: TrimPrefix_def HasPrefix_def)
  with a show "versionParts ver = (Join cs ''.'', component cs 0, component cs 1, component cs 2)"
    using versionParts_Join [of cs ver] by blast
next
  let ?cs = "Split (TrimPrefix ver ''v'') CHR ''.''"
  have j: "Join ?cs ''.'' = TrimPrefix ver ''v''" and d: "\<forall>c \<in> set ?cs. CHR ''.'' \<notin> set c"
    using Join_Split [of "TrimPrefix ver ''v''" "CHR ''.''"] by simp_all
  have "ver = ''v'' @ Join ?cs ''.'' \<or> ver = Join ?cs ''.'' \<and> \<not> prefix ''v'' ver"
    unfolding j by (auto simp: TrimPrefix_def HasPrefix_def prefix_def)
  then show "\<exists>cs. cs \<noteq> [] \<and> (\<forall>c \<in> set cs. CHR ''.'' \<notin> set c)
      \<and> (ver = ''v'' @ Join cs ''.'' \<or> ver = Join cs ''.'' \<and> \<not> prefix ''v'' ver)"
    using d Split_not_Nil by blast
qed

theorem versionParts_components_witness:
  "versionParts ''v1.2'' = (''1.2'', ''1'', ''2'', '''')
   \<and> versionParts ''1.2.3'' = (''1.2.3'', ''1'', ''2'', ''3'')"
proof -
  have a: "[''1'', ''2''] \<noteq> [] \<and> (\<forall>c \<in> set [''1'', ''2'']. CHR ''.'' \<notin> set c)
      \<and> (''v1.2'' = ''v'' @ Join [''1'', ''2''] ''.''
          \<or> ''v1.2'' = Join [''1'', ''2''] ''.'' \<and> \<not> prefix ''v'' ''v1.2'')"
    by simp
  have b: "[''1'', ''2'', ''3''] \<noteq> [] \<and> (\<forall>c \<in> set [''1'', ''2'', ''3'']. CHR ''.'' \<notin> set c)
      \<and> (''1.2.3'' = ''v'' @ Join [''1'', ''2'', ''3''] ''.''
          \<or> ''1.2.3'' = Join [''1'', ''2'', ''3''] ''.'' \<and> \<not> prefix ''v'' ''1.2.3'')"
    by simp
  show ?thesis
    using a b versionParts_components [of "[''1'', ''2'']" "''v1.2''"]
      versionParts_components [of "[''1'', ''2'', ''3'']" "''1.2.3''"]
    by (simp add: component_def)
qed

section \<open>Image references\<close>

text \<open>
  C7.  The image names built for the resolved tags are, tag by tag and in the same order,
  the image name, a colon and the tag, with the registry and a slash in front exactly when
  the registry is neither empty nor \<open>docker.io\<close>.  So \<open>myorg/myapp\<close> with registry
  \<open>docker.io\<close> or no registry gives \<open>myorg/myapp:<tag>\<close>, and with \<open>ghcr.io\<close> it gives
  \<open>ghcr.io/myorg/myapp:<tag>\<close>.
\<close>

theorem imageNamesOf_reference:
  "imageNamesOf cfg tags =
     map (\<lambda>tag. (if Registry cfg \<noteq> [] \<and> Registry cfg \<noteq> ''docker.io''
                  then Registry cfg @ ''/'' @ Image cfg else Image cfg) @ '':'' @ tag) tags
   \<and> (Image cfg = ''myorg/myapp'' \<and> (Registry cfg = ''docker.io'' \<or> Registry cfg = [])
        \<longrightarrow> imageNamesOf cfg tags = map (\<lambda>tag. ''myorg/myapp:'' @ tag) tags)
   \<and> (Image cfg = ''myorg/myapp'' \<and> Registry cfg = ''ghcr.io''
        \<longrightarrow> imageNamesOf cfg tags = map (\<lambda>tag. ''ghcr.io/myorg/myapp:'' @ tag) tags)"
  by (auto simp: imageNamesOf_map imageReference_def)

theorem imageNamesOf_reference_witness:
  "imageNamesOf exampleConfig [''1.2.3'', ''latest'']
     = [''myorg/myapp:1.2.3'', ''myorg/myapp:latest'']
   \<and> imageNamesOf (exampleConfig\<lparr>Registry := []\<rparr>) [''1.2.3''] = [''myorg/myapp:1.2.3'']
   \<and> imageNamesOf (exampleConfig\<lparr>Registry := ''ghcr.io''\<rparr>) [''1.2.3'']
     = [''ghcr.io/myorg/myapp:1.2.3'']"
  using imageNamesOf_reference [of exampleConfig "[''1.2.3'', ''latest'']"]
    imageNamesOf_reference [of "exampleConfig\<lparr>Registry := []\<rparr>" "[''1.2.3'']"]
    imageNamesOf_reference [of "exampleConfig\<lparr>Registry := ''ghcr.io''\<rparr>" "[''1.2.3'']"]
  by (simp add: exampleConfig_def)

section \<open>The login invocation\<close>

text \<open>
  C8 (as the code has it).  For every password, \<open>dockerLogin\<close> makes exactly one call of
  the executor: the command \<open>docker\<close> with the arguments \<open>login\<close>, then the registry (only
  when it is neither empty nor \<open>docker.io\<close>), then \<open>-u\<close>, the user name and
  \<open>--password-stdin\<close>, and with the password as standard input.  The argument list is the
  same whatever the password is.  The text of the password occurs in it exactly when the
  password equals one of the three fixed words, the user name, or a registry that is
  passed.
\<close>

theorem dockerLogin_invocation:
  "(let call = \<lparr>Name = ''docker'',
                 Args = [''login'']
                        @ (if Registry cfg \<noteq> [] \<and> Registry cfg \<noteq> ''docker.io''
                           then [Registry cfg] else [])
                        @ [''-u'', Username cfg, ''--password-stdin''],
                 Stdin = Some p\<rparr>
    in dockerLogin (recording ex) (cfg\<lparr>Password := p\<rparr>) (w, calls)
         = (fst (ex call w), (snd (ex call w), calls @ [call]))
       \<and> (p \<in> set (Args call))
           = (p \<in> {''login'', ''-u'', ''--password-stdin'', Username cfg}
              \<or> p = Registry cfg \<and> Registry cfg \<noteq> [] \<and> Registry cfg \<noteq> ''docker.io''))"
  by (auto simp: dockerLogin_def Let_def recording_apply)

theorem dockerLogin_invocation_witness:
  "dockerLogin (recording (mockExecutor 0))
     (exampleConfig\<lparr>Registry := ''ghcr.io'', Username := ''user'', Password := ''hunter2''\<rparr>)
     (0, [])
   = (None, (1, [\<lparr>Name = ''docker'',
                   Args = [''login'', ''ghcr.io'', ''-u'', ''user'', ''--password-stdin''],
                   Stdin = Some ''hunter2''\<rparr>]))
   \<and> ''hunter2'' \<notin> set [''login'', ''ghcr.io'', ''-u'', ''user'', ''--password-stdin'']
   \<and> dockerLogin (recording (mockExecutor 0))
     (exampleConfig\<lparr>Username := ''user'', Password := ''docker.io''\<rparr>) (0, [])
   = (None, (1, [\<lparr>Name = ''docker'',
                   Args = [''login'', ''-u'', ''user'', ''--password-stdin''],
                   Stdin = Some ''docker.io''\<rparr>]))"
  using dockerLogin_invocation [of
      "exampleConfig\<lparr>Registry := ''ghcr.io'', Username := ''user''\<rparr>" "''hunter2''"
      "mockExecutor 0" 0 "[]"]
    dockerLogin_invocation [of
      "exampleConfig\<lparr>Username := ''user''\<rparr>" "''docker.io''" "mockExecutor 0" 0 "[]"]
  by (simp add: exampleConfig_def mockExecutor_def Let_def)

text \<open>
  C8 (as stated) fails on "never appearing in the argument list": when the user name and
  the password are the same text, the argument list contains it.
\<close>

theorem dockerLogin_password_counterexample:
  "snd (snd (dockerLogin (recording (mockExecutor 0))
       (exampleConfig\<lparr>Username := ''secret'', Password := ''secret''\<rparr>) (0, [])))
     = [\<lparr>Name = ''docker'',
         Args = [''login'', ''-u'', ''secret'', ''--password-stdin''],
         Stdin = Some ''secret''\<rparr>]
   \<and> Password (exampleConfig\<lparr>Username := ''secret'', Password := ''secret''\<rparr>)
       \<in> set (Args (hd (snd (snd (dockerLogin (recording (mockExecutor 0))
           (exampleConfig\<lparr>Username := ''secret'', Password := ''secret''\<rparr>) (0, []))))))"
  by code_simp

section \<open>Validation comes first\<close>



section \<open>Dry run\<close>

text \<open>
  C10.  In a dry run the executor is never called: the log of calls and the state of the
  world are unchanged.  Validation still comes first, so any failing validator gives a
  failure response.  Otherwise the response is the preview, whose outputs hold the image
  name without registry, the resolved tags (none of them empty) and the registry.
\<close>

theorem dry_run_preview:
  "buildAndPush (recording ex) iter cfg ctx True (w, calls) =
     (case firstFailure (validationChecks iter cfg ctx) of
        Some msg \<Rightarrow> ((failed msg, None), (w, calls))
      | None \<Rightarrow>
          ((\<lparr>Success = True, Message = ''Would build and push Docker image'', Error = [],
             Outputs = [''image'' \<mapsto> String (Image cfg),
                        ''tags'' \<mapsto> Strings (resolvedTagSet cfg ctx),
                        ''registry'' \<mapsto> String (Registry cfg)]\<rparr>, None), (w, calls)))
   \<and> [] \<notin> set (resolvedTagSet cfg ctx)
   \<and> ((\<exists>c \<in> set (validationChecks iter cfg ctx). c \<noteq> None) \<longrightarrow>
        \<not> Success (fst (fst (buildAndPush (recording ex) iter cfg ctx True (w, calls)))))"
proof (intro conjI impI)
  show "buildAndPush (recording ex) iter cfg ctx True (w, calls) =
     (case firstFailure (validationChecks iter cfg ctx) of
        Some msg \<Rightarrow> ((failed msg, None), (w, calls))
      | None \<Rightarrow>
          ((\<lparr>Success = True, Message = ''Would build and push Docker image'', Error = [],
             Outputs = [''image'' \<mapsto> String (Image cfg),
                        ''tags'' \<mapsto> Strings (resolvedTagSet cfg ctx),
                        ''registry'' \<mapsto> String (Registry cfg)]\<rparr>, None), (w, calls)))"
    by (simp add: buildAndPush_recording orchestrate_def preview_def split: option.splits)
  show "[] \<notin> set (resolvedTagSet cfg ctx)"
    by (simp add: resolvedTagSet_def)
  assume "\<exists>c \<in> set (validationChecks iter cfg ctx). c \<noteq> None"
  then obtain msg where "firstFailure (validationChecks iter cfg ctx) = Some msg"
    using firstFailure_None [of "validationChecks iter cfg ctx"] by auto
  then show "\<not> Success (fst (fst (buildAndPush (recording ex) iter cfg ctx True (w, calls))))"
    by (simp add: buildAndPush_recording orchestrate_def failed_def)
qed


theorem dry_run_preview_witness:
  "buildAndPush (recording (mockExecutor 1)) exampleIter
     (exampleConfig\<lparr>Registry := ''ghcr.io'',
        Tags := [''{{version}}'', ''{{patch}}'', ''{{major}}'']\<rparr>)
     \<lparr>Version = ''v1.2''\<rparr> True (0, [])
   = ((\<lparr>Success = True, Message = ''Would build and push Docker image'', Error = [],
        Outputs = [''image'' \<mapsto> String ''myorg/myapp'',
                   ''tags'' \<mapsto> Strings [''1.2'', ''1''],
                   ''registry'' \<mapsto> String ''ghcr.io'']\<rparr>, None), (0, []))
   \<and> \<not> Success (fst (fst (buildAndPush (recording (mockExecutor 1)) exampleIter
          (exampleConfig\<lparr>Image := ''my..app''\<rparr>) \<lparr>Version = ''v1.2''\<rparr> True (0, []))))"
proof -
  let ?cfg = "exampleConfig\<lparr>Registry := ''ghcr.io'',
        Tags := [''{{version}}'', ''{{patch}}'', ''{{major}}'']\<rparr>"
  have a: "firstFailure (validationChecks exampleIter ?cfg \<lparr>Version = ''v1.2''\<rparr>) = None"
    by code_simp
  have t: "resolvedTagSet ?cfg \<lparr>Version = ''v1.2''\<rparr> = [''1.2'', ''1'']"
    by code_simp
  have f: "Image ?cfg = ''myorg/myapp''" "Registry ?cfg = ''ghcr.io''"
    by (simp_all add: exampleConfig_def)
  have c: "\<exists>c \<in> set (validationChecks exampleIter (exampleConfig\<lparr>Image := ''my..app''\<rparr>)
              \<lparr>Version = ''v1.2''\<rparr>). c \<noteq> None"
    by code_simp
  note ok = dry_run_preview [of "mockExecutor 1" exampleIter ?cfg "\<lparr>Version = ''v1.2''\<rparr>" 0 "[]",
      unfolded a t f option.case]
  note bad = dry_run_preview [of "mockExecutor 1" exampleIter
      "exampleConfig\<lparr>Image := ''my..app''\<rparr>" "\<lparr>Version = ''v1.2''\<rparr>" 0 "[]"]
  show ?thesis
    using c ok bad by blast
qed

section \<open>Empty tags\<close>

text \<open>
  C6.  The tag loop keeps the non-empty substitution results, in the order of their
  templates, and validates only those: a template that resolves to the empty string
  takes no part in validation.  The kept tags are the resolved tag set; a successful
  response reports exactly them, and every command issued belongs to the plan built from
  them (one \<open>-t\<close> and one push per kept tag).
\<close>

theorem empty_results_dropped:
  "resolveTags version major minor patch tags [] =
     (let kept = filter (\<lambda>t. t \<noteq> []) (map (resolveTag version major minor patch) tags)
      in case firstFailure (map (\<lambda>t. reportOn ''invalid tag'' t (validateTag t)) kept) of
           Some msg \<Rightarrow> Inl msg
         | None \<Rightarrow> Inr kept)
   \<and> resolvedTagSet cfg ctx =
       (case versionParts (Version ctx) of (version, major, minor, patch) \<Rightarrow>
          filter (\<lambda>t. t \<noteq> []) (map (resolveTag version major minor patch)
            (if length (Tags cfg) = 0 then [''{{version}}'', ''latest''] else Tags cfg)))
   \<and> (let result = buildAndPush (recording ex) iter cfg ctx dryRun (w, [])
      in (Success (fst (fst result)) \<longrightarrow>
            Outputs (fst (fst result)) ''tags'' = Some (Strings (resolvedTagSet cfg ctx)))
         \<and> prefix (snd (snd result)) (map snd (plan iter cfg ctx)))"
proof (intro conjI)
  show "resolveTags version major minor patch tags [] =
     (let kept = filter (\<lambda>t. t \<noteq> []) (map (resolveTag version major minor patch) tags)
      in case firstFailure (map (\<lambda>t. reportOn ''invalid tag'' t (validateTag t)) kept) of
           Some msg \<Rightarrow> Inl msg
         | None \<Rightarrow> Inr kept)"
    unfolding resolveTags_firstFailure Let_def append_Nil ..
  show "resolvedTagSet cfg ctx =
       (case versionParts (Version ctx) of (version, major, minor, patch) \<Rightarrow>
          filter (\<lambda>t. t \<noteq> []) (map (resolveTag version major minor patch)
            (if length (Tags cfg) = 0 then [''{{version}}'', ''latest''] else Tags cfg)))"
    by (rule resolvedTagSet_source)
  show "let result = buildAndPush (recording ex) iter cfg ctx dryRun (w, [])
      in (Success (fst (fst result)) \<longrightarrow>
            Outputs (fst (fst result)) ''tags'' = Some (Strings (resolvedTagSet cfg ctx)))
         \<and> prefix (snd (snd result)) (map snd (plan iter cfg ctx))"
    using orchestrate_calls_prefix [of ex iter cfg ctx dryRun w]
      orchestrate_tags [of ex iter cfg ctx dryRun w]
    by (auto simp: buildAndPush_recording Let_def split: prod.splits)
qed

theorem empty_results_dropped_witness:
  "resolveTags ''1.2'' ''1'' ''2'' '''' [''{{version}}'', ''{{patch}}'', ''{{major}}''] []
     = Inr [''1.2'', ''1'']
   \<and> snd (snd (buildAndPush (recording (mockExecutor 0)) exampleIter
        (exampleConfig\<lparr>Tags := [''{{version}}'', ''{{patch}}'', ''{{major}}'']\<rparr>)
        \<lparr>Version = ''v1.2''\<rparr> False (0, [])))
     = [\<lparr>Name = ''docker'',
         Args = [''build'', ''-t'', ''myorg/myapp:1.2'', ''-t'', ''myorg/myapp:1'',
                 ''-f'', ''Dockerfile'', ''--build-arg'', ''VERSION=v1.2'', ''.''],
         Stdin = None\<rparr>,
        \<lparr>Name = ''docker'', Args = [''push'', ''myorg/myapp:1.2''], Stdin = None\<rparr>,
        \<lparr>Name = ''docker'', Args = [''push'', ''myorg/myapp:1''], Stdin = None\<rparr>]
   \<and> Outputs (fst (fst (buildAndPush (recording (mockExecutor 0)) exampleIter
        (exampleConfig\<lparr>Tags := [''{{version}}'', ''{{patch}}'', ''{{major}}'']\<rparr>)
        \<lparr>Version = ''v1.2''\<rparr> False (0, [])))) ''tags'' = Some (Strings [''1.2'', ''1''])"
proof -
  let ?cfg = "exampleConfig\<lparr>Tags := [''{{version}}'', ''{{patch}}'', ''{{major}}'']\<rparr>"
  let ?ctx = "\<lparr>Version = ''v1.2''\<rparr>"
  let ?result = "buildAndPush (recording (mockExecutor 0)) exampleIter ?cfg ?ctx False (0, [])"
  have k: "filter (\<lambda>t. t \<noteq> [])
             (map (resolveTag ''1.2'' ''1'' ''2'' '''') [''{{version}}'', ''{{patch}}'', ''{{major}}''])
           = [''1.2'', ''1'']"
    by code_simp
  have f: "firstFailure (map (\<lambda>t. reportOn ''invalid tag'' t (validateTag t)) [''1.2'', ''1'']) = None"
    by code_simp
  have t: "resolvedTagSet ?cfg ?ctx = [''1.2'', ''1'']"
    by code_simp
  have s: "Success (fst (fst ?result))"
    by code_simp
  have p: "map snd (plan exampleIter ?cfg ?ctx)
     = [\<lparr>Name = ''docker'',
         Args = [''build'', ''-t'', ''myorg/myapp:1.2'', ''-t'', ''myorg/myapp:1'',
                 ''-f'', ''Dockerfile'', ''--build-arg'', ''VERSION=v1.2'', ''.''],
         Stdin = None\<rparr>,
        \<lparr>Name = ''docker'', Args = [''push'', ''myorg/myapp:1.2''], Stdin = None\<rparr>,
        \<lparr>Name = ''docker'', Args = [''push'', ''myorg/myapp:1''], Stdin = None\<rparr>]"
    by code_simp
  have l: "length (snd (snd ?result)) = 3"
    by code_simp
  note inst = empty_results_dropped [of "''1.2''" "''1''" "''2''" "''''"
      "[''{{version}}'', ''{{patch}}'', ''{{major}}'']" ?cfg ?ctx "mockExecutor 0" exampleIter False 0,
      unfolded Let_def k f option.case t p]
  from inst have pre: "prefix (snd (snd ?result))
     [\<lparr>Name = ''docker'',
         Args = [''build'', ''-t'', ''myorg/myapp:1.2'', ''-t'', ''myorg/myapp:1'',
                 ''-f'', ''Dockerfile'', ''--build-arg'', ''VERSION=v1.2'', ''.''],
         Stdin = None\<rparr>,
        \<lparr>Name = ''docker'', Args = [''push'', ''myorg/myapp:1.2''], Stdin = None\<rparr>,
        \<lparr>Name = ''docker'', Args = [''push'', ''myorg/myapp:1''], Stdin = None\<rparr>]"
    by blast
  have "snd (snd ?result)
     = [\<lparr>Name = ''docker'',
         Args = [''build'', ''-t'', ''myorg/myapp:1.2'', ''-t'', ''myorg/myapp:1'',
                 ''-f'', ''Dockerfile'', ''--build-arg'', ''VERSION=v1.2'', ''.''],
         Stdin = None\<rparr>,
        \<lparr>Name = ''docker'', Args = [''push'', ''myorg/myapp:1.2''], Stdin = None\<rparr>,
        \<lparr>Name = ''docker'', Args = [''push'', ''myorg/myapp:1''], Stdin = None\<rparr>]"
    using pre l by (intro prefix_same_length) simp_all
  then show ?thesis
    using inst s by blast
qed

section \<open>Login, build, push\<close>




section \<open>Structured responses\<close>

text \<open>
  C9.  For every hook, configuration, release context and executor, \<open>Execute\<close> returns a
  response together with a \<open>nil\<close> error, and the response is the one the outcome calls
  for.  For the post-publish hook: if a validator fails, the response has \<open>Success\<close> false
  and as \<open>Error\<close> the report of the first failing validator, which names its field, and the
  state is untouched (so a bad image name gives \<open>invalid image configuration\<close> followed by
  the validator's text, and a failure of any validator gives a failed response whose \<open>Error\<close>
  is one of the validator reports); if validation passes and a step of the run fails, the response has
  \<open>Success\<close> false and as \<open>Error\<close> the name of that step with the executor's error text; in
  every other case the response is a success with no error text (the preview of a dry run,
  or the completed run).  For any other hook the response is the success "not handled".
  A failed response always has an error text that begins with one of the failure kinds.
\<close>

theorem Execute_structured_response:
  "(let cfg = parseConfig (RawConfig req);
        ctx = ReleaseCtx req;
        result = Execute ex iter parseConfig req w;
        resp = fst (fst result)
    in result =
         (if Hook req = HookPostPublish
          then (case orchestrate ex iter cfg ctx (DryRun req) w of
                  (resp, w', calls) \<Rightarrow> ((resp, None), w'))
          else ((\<lparr>Success = True, Message = ''Hook '' @ Hook req @ '' not handled'',
                   Error = [], Outputs = Map.empty\<rparr>, None), w))
       \<and> snd (fst result) = None
       \<and> (Hook req = HookPostPublish \<and> firstFailure (validationChecks iter cfg ctx) = Some msg
            \<longrightarrow> result =
              ((\<lparr>Success = False, Message = [], Error = msg, Outputs = Map.empty\<rparr>, None), w))
       \<and> (Hook req = HookPostPublish \<and> validateImageName (Image cfg) = Some e
            \<longrightarrow> result =
              ((\<lparr>Success = False, Message = [],
                 Error = ''invalid image configuration: '' @ e, Outputs = Map.empty\<rparr>, None), w))
       \<and> (Hook req = HookPostPublish
            \<and> list_ex (\<lambda>c. c \<noteq> None) (validationChecks iter cfg ctx)
            \<longrightarrow> \<not> Success resp \<and> Some (Error resp) \<in> set (validationChecks iter cfg ctx)
                \<and> snd result = w)
       \<and> (Hook req = HookPostPublish \<and> firstFailure (validationChecks iter cfg ctx) = None
            \<and> \<not> DryRun req \<and> runSteps ex (plan iter cfg ctx) w = (Some (st, err), w', calls)
            \<longrightarrow> result =
              ((\<lparr>Success = False, Message = [], Error = stepError st err,
                 Outputs = Map.empty\<rparr>, None), w'))
       \<and> (Hook req = HookPostPublish \<and> firstFailure (validationChecks iter cfg ctx) = None
            \<and> (DryRun req \<or> fst (runSteps ex (plan iter cfg ctx) w) = None)
            \<longrightarrow> Success resp \<and> Error resp = [])
       \<and> (\<not> Success resp \<longrightarrow> (\<exists>kind \<in> set failureKinds. prefix kind (Error resp))))"
proof -
  let ?cfg = "parseConfig (RawConfig req)"
  let ?ctx = "ReleaseCtx req"
  let ?result = "Execute ex iter parseConfig req w"
  have eq: "?result =
         (if Hook req = HookPostPublish
          then (case orchestrate ex iter ?cfg ?ctx (DryRun req) w of
                  (resp, w', calls) \<Rightarrow> ((resp, None), w'))
          else ((\<lparr>Success = True, Message = ''Hook '' @ Hook req @ '' not handled'',
                   Error = [], Outputs = Map.empty\<rparr>, None), w))"
    by (simp add: Execute_def Let_def buildAndPush_orchestrate)
  have nil: "snd (fst ?result) = None"
    unfolding eq by (simp split: prod.splits)
  have bad: "?result = ((\<lparr>Success = False, Message = [], Error = msg, Outputs = Map.empty\<rparr>, None), w)"
    if "Hook req = HookPostPublish \<and> firstFailure (validationChecks iter ?cfg ?ctx) = Some msg"
    for msg
    unfolding eq using that by (simp add: orchestrate_def failed_def)
  have image: "?result = ((\<lparr>Success = False, Message = [],
                 Error = ''invalid image configuration: '' @ e, Outputs = Map.empty\<rparr>, None), w)"
    if "Hook req = HookPostPublish \<and> validateImageName (Image ?cfg) = Some e"
    using that bad [of "''invalid image configuration: '' @ e"]
    by (simp add: validationChecks_def report_def)
  have some: "\<not> Success (fst (fst ?result))
        \<and> Some (Error (fst (fst ?result))) \<in> set (validationChecks iter ?cfg ?ctx)
        \<and> snd ?result = w"
    if h: "Hook req = HookPostPublish
        \<and> list_ex (\<lambda>c. c \<noteq> None) (validationChecks iter ?cfg ?ctx)"
  proof -
    have "firstFailure (validationChecks iter ?cfg ?ctx) \<noteq> None"
      using h by (simp add: firstFailure_None list_ex_iff)
    then obtain m where m: "firstFailure (validationChecks iter ?cfg ?ctx) = Some m"
      by blast
    show ?thesis
      using bad [of m] h m firstFailure_Some [OF m] by simp
  qed
  have step: "?result = ((\<lparr>Success = False, Message = [], Error = stepError st err,
                 Outputs = Map.empty\<rparr>, None), w')"
    if "Hook req = HookPostPublish \<and> firstFailure (validationChecks iter ?cfg ?ctx) = None
            \<and> \<not> DryRun req \<and> runSteps ex (plan iter ?cfg ?ctx) w = (Some (st, err), w', calls)"
    unfolding eq using that by (simp add: orchestrate_def failed_def)
  have good: "Success (fst (fst ?result)) \<and> Error (fst (fst ?result)) = []"
    if "Hook req = HookPostPublish \<and> firstFailure (validationChecks iter ?cfg ?ctx) = None
            \<and> (DryRun req \<or> fst (runSteps ex (plan iter ?cfg ?ctx) w) = None)"
    unfolding eq using that
    by (auto simp: orchestrate_def preview_def completed_def split: prod.splits option.splits)
  have kind: "\<exists>kind \<in> set failureKinds. prefix kind (Error (fst (fst ?result)))"
    if "\<not> Success (fst (fst ?result))"
    using that orchestrate_response [of ex iter ?cfg ?ctx "DryRun req" w]
    unfolding eq by (auto split: prod.splits if_splits)
  show ?thesis
    unfolding Let_def using eq nil bad image some step good kind by blast
qed

theorem Execute_structured_response_witness:
  "Execute (mockExecutor 1) exampleIter (\<lambda>raw. raw)
       \<lparr>Hook = ''post-publish'', RawConfig = exampleConfig\<lparr>Context := ''/etc''\<rparr>,
        ReleaseCtx = \<lparr>Version = ''v1.2.3''\<rparr>, DryRun = False\<rparr> 0
     = ((\<lparr>Success = False, Message = [],
          Error = ''invalid build context path: absolute paths are not allowed'',
          Outputs = Map.empty\<rparr>, None), 0)
   \<and> Execute (mockExecutor 1) exampleIter (\<lambda>raw. raw)
       \<lparr>Hook = ''post-publish'', RawConfig = exampleConfig,
        ReleaseCtx = \<lparr>Version = ''v1.2.3''\<rparr>, DryRun = False\<rparr> 0
     = ((\<lparr>Success = False, Message = [], Error = ''failed to build image: mock error'',
          Outputs = Map.empty\<rparr>, None), 1)
   \<and> Execute (mockExecutor 2) exampleIter (\<lambda>raw. raw)
       \<lparr>Hook = ''post-publish'', RawConfig = exampleConfig,
        ReleaseCtx = \<lparr>Version = ''v1.2.3''\<rparr>, DryRun = False\<rparr> 0
     = ((\<lparr>Success = False, Message = [],
          Error = ''failed to push image myorg/myapp:1.2.3: mock error'',
          Outputs = Map.empty\<rparr>, None), 2)
   \<and> Success (fst (fst (Execute (mockExecutor 0) exampleIter (\<lambda>raw. raw)
       \<lparr>Hook = ''post-publish'', RawConfig = exampleConfig,
        ReleaseCtx = \<lparr>Version = ''v1.2.3''\<rparr>, DryRun = False\<rparr> 0)))"
proof -
  let ?ctx = "\<lparr>Version = ''v1.2.3''\<rparr>"
  let ?badcfg = "exampleConfig\<lparr>Context := ''/etc''\<rparr>"
  let ?bad = "\<lparr>Hook = ''post-publish'', RawConfig = ?badcfg, ReleaseCtx = ?ctx, DryRun = False\<rparr>"
  let ?ok = "\<lparr>Hook = ''post-publish'', RawConfig = exampleConfig, ReleaseCtx = ?ctx,
      DryRun = False\<rparr>"
  have h: "Hook ?bad = HookPostPublish" "Hook ?ok = HookPostPublish"
    "RawConfig ?bad = ?badcfg" "RawConfig ?ok = exampleConfig"
    "ReleaseCtx ?bad = ?ctx" "ReleaseCtx ?ok = ?ctx"
    "DryRun ?bad = False" "DryRun ?ok = False"
    by (simp_all add: HookPostPublish_def)
  have v: "firstFailure (validationChecks exampleIter ?badcfg ?ctx)
      = Some ''invalid build context path: absolute paths are not allowed''"
    "firstFailure (validationChecks exampleIter exampleConfig ?ctx) = None"
    by code_simp+
  have r: "runSteps (mockExecutor 1) (plan exampleIter exampleConfig ?ctx) 0
      = (Some (BuildStep, ''mock error''), 1,
         [buildCall exampleIter exampleConfig ?ctx
            (map (imageReference exampleConfig) (resolvedTagSet exampleConfig ?ctx))])"
    "runSteps (mockExecutor 2) (plan exampleIter exampleConfig ?ctx) 0
      = (Some (PushStep ''myorg/myapp:1.2.3'', ''mock error''), 2,
         [buildCall exampleIter exampleConfig ?ctx
            (map (imageReference exampleConfig) (resolvedTagSet exampleConfig ?ctx)),
          pushCall ''myorg/myapp:1.2.3''])"
    "fst (runSteps (mockExecutor 0) (plan exampleIter exampleConfig ?ctx) 0) = None"
    by code_simp+
  note bad = Execute_structured_response
      [of "\<lambda>raw. raw" ?bad "mockExecutor 1" exampleIter 0
        "''invalid build context path: absolute paths are not allowed''",
        unfolded Let_def h]
  note build = Execute_structured_response
      [of "\<lambda>raw. raw" ?ok "mockExecutor 1" exampleIter 0 _ _ BuildStep "''mock error''",
        unfolded Let_def h]
  note push = Execute_structured_response
      [of "\<lambda>raw. raw" ?ok "mockExecutor 2" exampleIter 0 _ _ "PushStep ''myorg/myapp:1.2.3''"
        "''mock error''", unfolded Let_def h]
  note good = Execute_structured_response
      [of "\<lambda>raw. raw" ?ok "mockExecutor 0" exampleIter 0, unfolded Let_def h]
  have e1: "Execute (mockExecutor 1) exampleIter (\<lambda>raw. raw) ?bad 0
     = ((\<lparr>Success = False, Message = [],
          Error = ''invalid build context path: absolute paths are not allowed'',
          Outputs = Map.empty\<rparr>, None), 0)"
    using bad v(1) by blast
  have e2: "Execute (mockExecutor 1) exampleIter (\<lambda>raw. raw) ?ok 0
     = ((\<lparr>Success = False, Message = [], Error = stepError BuildStep ''mock error'',
          Outputs = Map.empty\<rparr>, None), 1)"
    using build v(2) r(1) by blast
  have e3: "Execute (mockExecutor 2) exampleIter (\<lambda>raw. raw) ?ok 0
     = ((\<lparr>Success = False, Message = [],
          Error = stepError (PushStep ''myorg/myapp:1.2.3'') ''mock error'',
          Outputs = Map.empty\<rparr>, None), 2)"
    using push v(2) r(2) by blast
  have e4: "Success (fst (fst (Execute (mockExecutor 0) exampleIter (\<lambda>raw. raw) ?ok 0)))"
    using good v(2) r(3) by blast
  show ?thesis
    using e1 e2 e3 e4 by simp
qed

section \<open>Template substitution\<close>

text \<open>
  C4 (as the code has it).  Take a template whose literal text contains no opening brace
  and a version string that contains none.  Substituting any sequence of placeholder
  types, one \<open>ReplaceAll\<close> after the other, replaces exactly the placeholders of those
  types, each occurrence once, by its value.  So the result depends only on which types
  were substituted: every order of the four types gives the same text, substituting a
  type again changes nothing, and the order of the code gives the template with every
  placeholder replaced by its value.  Resolving \<open>{{major}}.{{minor}}.{{patch}}\<close> against
  \<open>v3.2.1\<close> yields \<open>3.2.1\<close>, and the default tag list against \<open>v1.2.3\<close> yields \<open>1.2.3\<close> and
  \<open>latest\<close>.
\<close>

theorem template_substitution:
  "(plain ps \<and> CHR ''{'' \<notin> set v \<longrightarrow>
      substituteIn order (valueOf v) (render ps) = renderWith (set order) (valueOf v) ps
      \<and> (case versionParts v of (version, major, minor, patch) \<Rightarrow>
            resolveTag version major minor patch (render ps)) = renderWith UNIV (valueOf v) ps)
   \<and> (case versionParts ''v3.2.1'' of (version, major, minor, patch) \<Rightarrow>
         resolveTag version major minor patch ''{{major}}.{{minor}}.{{patch}}'') = ''3.2.1''
   \<and> (case versionParts ''v1.2.3'' of (version, major, minor, patch) \<Rightarrow>
         resolveTags version major minor patch [''{{version}}'', ''latest''] [])
       = Inr [''1.2.3'', ''latest'']"
proof (intro conjI impI)
  assume a: "plain ps \<and> CHR ''{'' \<notin> set v"
  then have v: "CHR ''{'' \<notin> set (valueOf v q)" for q
    using valueOf_set [of v q] by auto
  have s: "substituteIn order' (valueOf v) (render ps) = renderWith (set order') (valueOf v) ps"
    for order'
    using substituteIn_renderWith [of "valueOf v" ps order' "{}"] v a
    by (simp add: render_renderWith [of ps "valueOf v"])
  show "substituteIn order (valueOf v) (render ps) = renderWith (set order) (valueOf v) ps"
    by (rule s)
  have u: "set [PVersion, PMajor, PMinor, PPatch] = UNIV"
    using placeholder.exhaust by auto
  show "(case versionParts v of (version, major, minor, patch) \<Rightarrow>
            resolveTag version major minor patch (render ps)) = renderWith UNIV (valueOf v) ps"
    using s [of "[PVersion, PMajor, PMinor, PPatch]"]
      resolveTag_substituteIn [of v "render ps"]
    unfolding u by (simp add: versionParts_valueOf del: valueOf.simps)
next
  show "(case versionParts ''v3.2.1'' of (version, major, minor, patch) \<Rightarrow>
         resolveTag version major minor patch ''{{major}}.{{minor}}.{{patch}}'') = ''3.2.1''"
    by code_simp
next
  show "(case versionParts ''v1.2.3'' of (version, major, minor, patch) \<Rightarrow>
         resolveTags version major minor patch [''{{version}}'', ''latest''] [])
       = Inr [''1.2.3'', ''latest'']"
    by code_simp
qed

theorem template_substitution_witness:
  "substituteIn [PPatch, PMinor, PMajor, PMinor, PVersion] (valueOf ''v3.2.1'')
     ''{{major}}.{{minor}}-rc{{major}}'' = ''3.2-rc3''
   \<and> substituteIn [PMajor, PMajor] (valueOf ''v3.2.1'') ''{{major}}.{{minor}}-rc{{major}}''
     = ''3.{{minor}}-rc3''
   \<and> resolveTag ''3.2.1'' ''3'' ''2'' ''1'' ''{{major}}.{{minor}}-rc{{major}}'' = ''3.2-rc3''"
proof -
  let ?ps = "[Hole PMajor, Text ''.'', Hole PMinor, Text ''-rc'', Hole PMajor]"
  have h: "plain ?ps \<and> CHR ''{'' \<notin> set ''v3.2.1''"
    by simp
  have r: "render ?ps = ''{{major}}.{{minor}}-rc{{major}}''"
    by simp
  have vp: "versionParts ''v3.2.1'' = (''3.2.1'', ''3'', ''2'', ''1'')"
    by code_simp
  have w: "renderWith (set [PPatch, PMinor, PMajor, PMinor, PVersion]) (valueOf ''v3.2.1'') ?ps
             = ''3.2-rc3''"
    "renderWith (set [PMajor, PMajor]) (valueOf ''v3.2.1'') ?ps = ''3.{{minor}}-rc3''"
    "renderWith UNIV (valueOf ''v3.2.1'') ?ps = ''3.2-rc3''"
    by (simp_all add: vp)
  show ?thesis
    using h template_substitution [of ?ps "''v3.2.1''" "[PPatch, PMinor, PMajor, PMinor, PVersion]"]
      template_substitution [of ?ps "''v3.2.1''" "[PMajor, PMajor]"]
    unfolding r w vp prod.case by blast
qed

text \<open>
  C4 (as stated, for every version string) fails.  With the version \<open>v{{minor}}.5\<close> the
  major component is the text \<open>{{minor}}\<close>: the code resolves the template \<open>{{major}}\<close> to
  \<open>5\<close>, substituting a second time inside the text it has just inserted, while substituting
  minor before major gives \<open>{{minor}}\<close>.  With the version \<open>v{{major}}x\<close>, substituting
  major twice differs from substituting it once.
\<close>

theorem template_substitution_counterexample:
  "versionParts ''v{{minor}}.5'' = (''{{minor}}.5'', ''{{minor}}'', ''5'', [])
   \<and> resolveTag ''{{minor}}.5'' ''{{minor}}'' ''5'' [] ''{{major}}'' = ''5''
   \<and> substituteIn [PMinor, PMajor, PVersion, PPatch] (valueOf ''v{{minor}}.5'') ''{{major}}''
       = ''{{minor}}''
   \<and> versionParts ''v{{major}}x'' = (''{{major}}x'', ''{{major}}x'', [], [])
   \<and> ReplaceAll ''{{major}}'' ''{{major}}'' ''{{major}}x'' = ''{{major}}x''
   \<and> ReplaceAll (ReplaceAll ''{{major}}'' ''{{major}}'' ''{{major}}x'') ''{{major}}'' ''{{major}}x''
       = ''{{major}}xx''"
  by code_simp

end
